theory Spec2Isabelle
  imports Main "HOL-Library.Multiset" "HOL-Library.Char_ord" "HOL-Library.List_Lexorder"
    "HOL-Library.Product_Lexorder"
begin

section \<open>Python text operations used by the scanner\<close>

text \<open>
  Python \<open>str\<close> values are modelled as \<open>string\<close>: a list of characters whose codes are
  the code points below 256.  The operations below are the ones \<open>cred_checker.py\<close> and the
  parts of \<open>urllib.parse\<close> it calls apply to text.
\<close>

definition startswith :: "string \<Rightarrow> string \<Rightarrow> bool" where
  "startswith s p = (take (length p) s = p)"

text \<open>\<open>sub in s\<close> for text: some suffix of \<open>s\<close> starts with \<open>sub\<close>.\<close>

fun contains :: "string \<Rightarrow> string \<Rightarrow> bool" where
  "contains [] sub = (sub = [])"
| "contains (c # cs) sub = (startswith (c # cs) sub \<or> contains cs sub)"

text \<open>\<open>str.lower\<close> on code points below 256: A-Z and the Latin-1 capitals (except the
  multiplication sign, code 215) move up by 32.\<close>

definition lower_char :: "char \<Rightarrow> char" where
  "lower_char c =
     (let n = of_char c :: nat
      in if (65 \<le> n \<and> n \<le> 90) \<or> (192 \<le> n \<and> n \<le> 222 \<and> n \<noteq> 215)
         then char_of (n + 32) else c)"

definition lower :: "string \<Rightarrow> string" where
  "lower s = map lower_char s"

text \<open>\<open>s.partition(c)\<close> for a one-character separator: text before the first \<open>c\<close>,
  whether \<open>c\<close> was found, text after it.\<close>

definition partition_chr :: "char \<Rightarrow> string \<Rightarrow> string \<times> bool \<times> string" where
  "partition_chr c s =
     (case dropWhile (\<lambda>x. x \<noteq> c) s of
        [] \<Rightarrow> (s, False, [])
      | _ # r \<Rightarrow> (takeWhile (\<lambda>x. x \<noteq> c) s, True, r))"

text \<open>\<open>s.rpartition(c)\<close>: the split is at the last \<open>c\<close>; when there is none the whole
  text is the third component.\<close>

definition rpartition_chr :: "char \<Rightarrow> string \<Rightarrow> string \<times> bool \<times> string" where
  "rpartition_chr c s =
     (case partition_chr c (rev s) of
        (a, found, b) \<Rightarrow> if found then (rev b, True, rev a) else ([], False, s))"

text \<open>\<open>s.find(c, start)\<close> for a one-character \<open>c\<close>: \<open>None\<close> stands for Python's -1.\<close>

definition find_from :: "char \<Rightarrow> string \<Rightarrow> nat \<Rightarrow> nat option" where
  "find_from c s start =
     (if c \<in> set (drop start s)
      then Some (start + length (takeWhile (\<lambda>x. x \<noteq> c) (drop start s)))
      else None)"

text \<open>\<open>s.rfind(c)\<close>, only called below when \<open>c\<close> occurs in \<open>s\<close>.\<close>

definition rfind :: "char \<Rightarrow> string \<Rightarrow> nat option" where
  "rfind c s =
     (if c \<in> set s
      then Some (length s - 1 - length (takeWhile (\<lambda>x. x \<noteq> c) (rev s)))
      else None)"

definition is_ascii_digit :: "char \<Rightarrow> bool" where
  "is_ascii_digit c = (48 \<le> (of_char c :: nat) \<and> (of_char c :: nat) \<le> 57)"

definition is_ascii_alpha :: "char \<Rightarrow> bool" where
  "is_ascii_alpha c =
     (let n = of_char c :: nat in (65 \<le> n \<and> n \<le> 90) \<or> (97 \<le> n \<and> n \<le> 122))"

text \<open>\<open>int(s)\<close> on a text of ASCII digits.\<close>

definition int_of_digits :: "string \<Rightarrow> int" where
  "int_of_digits s = foldl (\<lambda>acc c. 10 * acc + (int (of_char c) - 48)) 0 s"

section \<open>The URL splitter the target parser calls\<close>

text \<open>
  \<open>parse_url\<close> hands its text to \<open>urllib.parse.urlparse\<close> and reads \<open>scheme\<close>,
  \<open>hostname\<close>, \<open>netloc\<close>, \<open>port\<close> and \<open>path\<close> of the result.  The definitions follow
  CPython's \<open>urllib/parse.py\<close>, function by function.  Three things the installed library
  decides are taken as given, in the record \<open>urllib\<close>, so that every statement below holds
  for each release of the library:
  \<^item> \<open>bracket_ok\<close>: the netlocs holding both brackets that the library's bracket check
    accepts (\<open>_check_bracketed_host\<close> in 3.11, which calls the \<open>ipaddress\<close> module on the
    text between the brackets; \<open>_check_bracketed_netloc\<close> in later releases, which also
    refuses text before the opening and after the closing bracket); a netloc outside the
    set raises \<open>ValueError\<close>;
  \<^item> \<open>netloc_rejected\<close>: the netlocs that \<open>_checknetloc\<close> refuses after NFKC normalization;
    the check is only made on a netloc that is not empty and not all ASCII;
  \<^item> \<open>max_str_digits\<close>: the limit of \<open>int\<close> on the number of digits it converts
    (\<open>sys.int_info.default_max_str_digits\<close>, 4300 unless reconfigured; 0 for no limit).
\<close>

datatype reason =
  InvalidIPv6URL | BracketedHostRejected | NetlocRejected
  | PortNotInteger | IntDigitLimit | PortOutOfRange

datatype error = ValueError reason

record urllib =
  bracket_ok :: "string set"
  netloc_rejected :: "string set"
  max_str_digits :: nat

record parse_result =
  scheme :: string
  netloc :: string
  ppath :: string
  params :: string
  query :: string
  fragment :: string

definition scheme_chars :: string where
  "scheme_chars = ''abcdefghijklmnopqrstuvwxyzABCDEFGHIJKLMNOPQRSTUVWXYZ0123456789+-.''"

definition uses_params :: "string list" where
  "uses_params = ['''', ''ftp'', ''hdl'', ''prospero'', ''http'', ''imap'', ''https'', ''shttp'',
                  ''rtsp'', ''rtsps'', ''rtspu'', ''sip'', ''sips'', ''mms'', ''sftp'', ''tel'']"

text \<open>\<open>_WHATWG_C0_CONTROL_OR_SPACE\<close>: the codes 0 to 32.\<close>

definition c0_control_or_space :: "char \<Rightarrow> bool" where
  "c0_control_or_space c = ((of_char c :: nat) \<le> 32)"

text \<open>\<open>_UNSAFE_URL_BYTES_TO_REMOVE\<close>: tab, carriage return, line feed.\<close>

definition unsafe_url_byte :: "char \<Rightarrow> bool" where
  "unsafe_url_byte c = ((of_char c :: nat) \<in> {9, 13, 10})"

definition is_ascii :: "char \<Rightarrow> bool" where
  "is_ascii c = ((of_char c :: nat) < 128)"

definition splitnetloc :: "string \<Rightarrow> nat \<Rightarrow> string \<times> string" where
  "splitnetloc url start =
     (let delim = foldl (\<lambda>d c. case find_from c url start of
                                  Some wdelim \<Rightarrow> min d wdelim
                                | None \<Rightarrow> d)
                        (length url) ''/?#''
      in (drop start (take delim url), drop delim url))"

definition urlsplit :: "urllib \<Rightarrow> string \<Rightarrow> error + parse_result" where
  "urlsplit lib url0 =
     (let url1 = dropWhile c0_control_or_space url0;
          url2 = filter (\<lambda>c. \<not> unsafe_url_byte c) url1;
          (sch, url3) =
             (case find_from CHR '':'' url2 0 of
                Some i \<Rightarrow>
                  if i > 0 \<and> is_ascii_alpha (hd url2)
                     \<and> list_all (\<lambda>c. c \<in> set scheme_chars) (take i url2)
                  then (lower (take i url2), drop (i + 1) url2)
                  else ('''', url2)
              | None \<Rightarrow> ('''', url2));
          (nl, url4) = (if take 2 url3 = ''//'' then splitnetloc url3 2 else ('''', url3))
      in if take 2 url3 = ''//''
            \<and> ((CHR ''['' \<in> set nl \<and> CHR '']'' \<notin> set nl)
                \<or> (CHR '']'' \<in> set nl \<and> CHR ''['' \<notin> set nl))
         then Inl (ValueError InvalidIPv6URL)
         else if take 2 url3 = ''//'' \<and> CHR ''['' \<in> set nl \<and> CHR '']'' \<in> set nl
                 \<and> nl \<notin> bracket_ok lib
         then Inl (ValueError BracketedHostRejected)
         else
           (let (url5, frag) =
                  (if CHR ''#'' \<in> set url4
                   then (case partition_chr CHR ''#'' url4 of (a, _, b) \<Rightarrow> (a, b))
                   else (url4, ''''));
                (url6, qry) =
                  (if CHR ''?'' \<in> set url5
                   then (case partition_chr CHR ''?'' url5 of (a, _, b) \<Rightarrow> (a, b))
                   else (url5, ''''))
            in if nl \<noteq> '''' \<and> \<not> list_all is_ascii nl \<and> nl \<in> netloc_rejected lib
               then Inl (ValueError NetlocRejected)
               else Inr \<lparr>scheme = sch, netloc = nl, ppath = url6, params = '''',
                         query = qry, fragment = frag\<rparr>))"

definition splitparams :: "string \<Rightarrow> string \<times> string" where
  "splitparams url =
     (if CHR ''/'' \<in> set url
      then (case find_from CHR '';'' url (the (rfind CHR ''/'' url)) of
              None \<Rightarrow> (url, '''')
            | Some i \<Rightarrow> (take i url, drop (i + 1) url))
      else (case find_from CHR '';'' url 0 of
              None \<Rightarrow> (url, '''')
            | Some i \<Rightarrow> (take i url, drop (i + 1) url)))"

definition urlparse :: "urllib \<Rightarrow> string \<Rightarrow> error + parse_result" where
  "urlparse lib url =
     (case urlsplit lib url of
        Inl e \<Rightarrow> Inl e
      | Inr r \<Rightarrow>
          if scheme r \<in> set uses_params \<and> CHR '';'' \<in> set (ppath r)
          then (case splitparams (ppath r) of (u, p) \<Rightarrow> Inr (r\<lparr>ppath := u, params := p\<rparr>))
          else Inr r)"

text \<open>The \<open>_hostinfo\<close> property: host text and port text of a netloc.\<close>

definition hostinfo :: "parse_result \<Rightarrow> string \<times> string option" where
  "hostinfo r =
     (let (_, _, hinfo) = rpartition_chr CHR ''@'' (netloc r);
          (_, have_open_br, bracketed) = partition_chr CHR ''['' hinfo;
          (hname, prt) =
             (if have_open_br
              then (case partition_chr CHR '']'' bracketed of
                      (h, _, p) \<Rightarrow> (h, snd (snd (partition_chr CHR '':'' p))))
              else (case partition_chr CHR '':'' hinfo of (h, _, p) \<Rightarrow> (h, p)))
      in (hname, if prt = '''' then None else Some prt))"

definition hostname :: "parse_result \<Rightarrow> string option" where
  "hostname r =
     (let hname = fst (hostinfo r)
      in if hname = '''' then None
         else (case partition_chr CHR ''%'' hname of
                 (h, percent, zone) \<Rightarrow>
                   Some (lower h @ (if percent then ''%'' else '''') @ zone)))"

text \<open>The \<open>port\<close> property: \<open>port.isdigit() and port.isascii()\<close>, then \<open>int(port)\<close>, then
  the range test.  \<open>int\<close> raises \<open>ValueError\<close> on a text with more digits than the limit,
  leading zeros counted.\<close>

definition port :: "urllib \<Rightarrow> parse_result \<Rightarrow> error + int option" where
  "port lib r =
     (case snd (hostinfo r) of
        None \<Rightarrow> Inr None
      | Some p \<Rightarrow>
          if list_all is_ascii_digit p
          then (if 0 < max_str_digits lib \<and> max_str_digits lib < length p
                then Inl (ValueError IntDigitLimit)
                else if 0 \<le> int_of_digits p \<and> int_of_digits p \<le> 65535
                then Inr (Some (int_of_digits p))
                else Inl (ValueError PortOutOfRange))
          else Inl (ValueError PortNotInteger))"

section \<open>The target parser\<close>

record target =
  t_url :: string
  t_proto :: string
  t_host :: string
  t_port :: int
  t_path :: string

text \<open>Lines 181-182 of \<open>parse_url\<close>: the text handed to \<open>urlparse\<close>, which is also
  the \<open>url\<close> entry of the returned dictionary.\<close>

definition ensure_scheme :: "string \<Rightarrow> string" where
  "ensure_scheme raw =
     (if startswith raw ''http://'' \<or> startswith raw ''https://'' then raw
      else ''http://'' @ raw)"

text \<open>\<open>CredChecker.parse_url\<close>.  The only way out other than the returned dictionary is
  the \<open>ValueError\<close> of \<open>urlparse\<close> or of the \<open>port\<close> property; the function catches
  nothing and raises nothing of its own.\<close>

definition parse_url :: "urllib \<Rightarrow> string \<Rightarrow> error + target" where
  "parse_url lib raw =
     (let url = ensure_scheme raw
      in case urlparse lib url of
           Inl e \<Rightarrow> Inl e
         | Inr parsed \<Rightarrow>
             (let proto = (if scheme parsed \<noteq> '''' then scheme parsed else ''http'');
                  host = (case hostname parsed of
                            Some h \<Rightarrow> h
                          | None \<Rightarrow> takeWhile (\<lambda>c. c \<noteq> CHR '':'') (netloc parsed))
              in case port lib parsed of
                   Inl e \<Rightarrow> Inl e
                 | Inr p \<Rightarrow>
                     Inr \<lparr>t_url = url, t_proto = proto, t_host = host,
                          t_port = (case p of
                                      None \<Rightarrow> (if proto = ''https'' then 443 else 80)
                                    | Some n \<Rightarrow> if n = 0
                                                then (if proto = ''https'' then 443 else 80)
                                                else n),
                          t_path = (if ppath parsed \<noteq> '''' then ppath parsed else ''/'')\<rparr>))"

section \<open>The clock\<close>

text \<open>
  \<open>_save_result\<close> stamps a row with \<open>datetime.now().isoformat()\<close>.  A reading of the
  clock is a naive \<open>datetime\<close>; \<open>isoformat\<close> writes it as \<open>YYYY-MM-DDTHH:MM:SS\<close>,
  followed by a dot and six digits when the microsecond is not zero.  \<open>zfill w n\<close> is the
  decimal text of \<open>n\<close> in \<open>w\<close> digits with leading zeros (for \<open>n\<close> below \<open>10 ^ w\<close>, which
  the fields of a \<open>datetime\<close> are).
\<close>

record datetime =
  year :: nat
  month :: nat
  day :: nat
  hour :: nat
  minute :: nat
  second :: nat
  microsecond :: nat

text \<open>The ranges the \<open>datetime\<close> class enforces.\<close>

definition valid_datetime :: "datetime \<Rightarrow> bool" where
  "valid_datetime d =
     (1 \<le> year d \<and> year d \<le> 9999 \<and> 1 \<le> month d \<and> month d \<le> 12
      \<and> 1 \<le> day d \<and> day d \<le> 31 \<and> hour d \<le> 23 \<and> minute d \<le> 59
      \<and> second d \<le> 59 \<and> microsecond d \<le> 999999)"

fun zfill :: "nat \<Rightarrow> nat \<Rightarrow> string" where
  "zfill 0 n = []"
| "zfill (Suc w) n = zfill w (n div 10) @ [char_of (48 + n mod 10)]"

definition isoformat :: "datetime \<Rightarrow> string" where
  "isoformat d =
     zfill 4 (year d) @ ''-'' @ zfill 2 (month d) @ ''-'' @ zfill 2 (day d) @ ''T''
       @ zfill 2 (hour d) @ '':'' @ zfill 2 (minute d) @ '':'' @ zfill 2 (second d)
       @ (if microsecond d = 0 then '''' else ''.'' @ zfill 6 (microsecond d))"

text \<open>The order of clock readings: by year, then month, and so on down to the
  microsecond.\<close>

definition dt_key :: "datetime \<Rightarrow> nat \<times> nat \<times> nat \<times> nat \<times> nat \<times> nat \<times> nat" where
  "dt_key d = (year d, month d, day d, hour d, minute d, second d, microsecond d)"

section \<open>The result store\<close>

text \<open>
  The \<open>result\<close> dictionaries built by the two scanners.  The keys \<open>username\<close>,
  \<open>password\<close> and \<open>response\<close> may be absent (\<open>None\<close>); \<open>cached\<close> is present, with the
  value \<open>True\<close>, only on a cache hit.
\<close>

record scan_result =
  r_url :: string
  r_host :: string
  r_port :: int
  r_proto :: string
  r_method :: string
  r_username :: "string option"
  r_password :: "string option"
  r_success :: bool
  r_response :: "string option"
  r_cached :: bool

text \<open>A row of the table \<open>scans\<close> created by \<open>_init_database\<close>.\<close>

record row =
  row_id :: nat
  row_url :: string
  row_host :: string
  row_port :: int
  row_proto :: string
  row_method :: string
  row_username :: string
  row_password :: string
  row_success :: bool
  row_response :: string
  row_timestamp :: string

text \<open>
  The state a \<open>CredChecker\<close> works on: the table \<open>scans\<close> of its database in insertion
  order, the list \<open>self.results\<close>, and the files it reads and writes (path to content).
  The wall clock, the scanner process and the HTTP transport are inputs of each operation.
  So is a failure of \<open>_save_result\<close> inside the probe loop, where the loop's own handler
  catches it.  In \<open>scan_with_nmap\<close> a failing database statement leaves the function as an
  exception, with no result; that path is not followed here.
\<close>

record checker =
  db :: "row list"
  results :: "scan_result list"
  files :: "string \<rightharpoonup> string"

text \<open>\<open>dict.get(key, '')\<close>.\<close>

definition get_or_empty :: "string option \<Rightarrow> string" where
  "get_or_empty v = (case v of None \<Rightarrow> '''' | Some x \<Rightarrow> x)"

text \<open>The values bound by the \<open>INSERT\<close> statement of \<open>_save_result\<close>, with the row's
  key and the text of \<open>datetime.now().isoformat()\<close>.\<close>

definition row_of :: "nat \<Rightarrow> scan_result \<Rightarrow> string \<Rightarrow> row" where
  "row_of key result now =
     \<lparr>row_id = key, row_url = r_url result, row_host = r_host result,
      row_port = r_port result, row_proto = r_proto result, row_method = r_method result,
      row_username = get_or_empty (r_username result),
      row_password = get_or_empty (r_password result),
      row_success = r_success result,
      row_response = get_or_empty (r_response result),
      row_timestamp = now\<rparr>"

text \<open>\<open>_save_result\<close>: one \<open>INSERT\<close>, stamped with the clock reading \<open>now\<close>, then
  \<open>self.results.append\<close>.  The key of the new row is the next \<open>AUTOINCREMENT\<close> value;
  rows are never deleted.\<close>

definition save_result :: "checker \<Rightarrow> scan_result \<Rightarrow> string \<Rightarrow> checker" where
  "save_result s result now =
     s\<lparr>db := db s @ [row_of (length (db s) + 1) result now],
       results := results s @ [result]\<rparr>"

text \<open>
  \<open>ORDER BY timestamp DESC\<close>: the column is \<open>TEXT\<close>, compared character by character.
  Rows with equal timestamps stay in insertion order here; SQL leaves their order open and
  no theorem below depends on it.
\<close>

fun insert_desc :: "row \<Rightarrow> row list \<Rightarrow> row list" where
  "insert_desc r [] = [r]"
| "insert_desc r (x # xs) =
     (if row_timestamp x < row_timestamp r then r # x # xs else x # insert_desc r xs)"

definition order_by_timestamp_desc :: "row list \<Rightarrow> row list" where
  "order_by_timestamp_desc rows = foldl (\<lambda>acc r. insert_desc r acc) [] rows"

text \<open>The query of \<open>generate_reports\<close>:
  \<open>SELECT * FROM scans WHERE success=1 ORDER BY timestamp DESC\<close>.\<close>

definition successful_scans :: "checker \<Rightarrow> row list" where
  "successful_scans s = order_by_timestamp_desc (filter row_success (db s))"

text \<open>The cache query of \<open>scan_with_nmap\<close>:
  \<open>... WHERE host=? AND port=? AND proto=? AND method='nmap-nse' ORDER BY timestamp DESC
  LIMIT 1\<close>, then \<open>fetchone\<close>.\<close>

definition cache_match :: "target \<Rightarrow> row \<Rightarrow> bool" where
  "cache_match t r =
     (row_host r = t_host t \<and> row_port r = t_port t \<and> row_proto r = t_proto t
      \<and> row_method r = ''nmap-nse'')"

definition cache_lookup :: "checker \<Rightarrow> target \<Rightarrow> row option" where
  "cache_lookup s t =
     (case order_by_timestamp_desc (filter (cache_match t) (db s)) of
        [] \<Rightarrow> None
      | r # _ \<Rightarrow> Some r)"

section \<open>The external-scanner adapter\<close>

text \<open>\<open>str(n)\<close> for an integer.\<close>

fun str_nat :: "nat \<Rightarrow> string" where
  "str_nat n =
     (if n < 10 then [char_of (48 + n)]
      else str_nat (n div 10) @ [char_of (48 + n mod 10)])"

declare str_nat.simps [simp del]

definition str_int :: "int \<Rightarrow> string" where
  "str_int i = (if i < 0 then CHR ''-'' # str_nat (nat (- i)) else str_nat (nat i))"

text \<open>\<open>s.split(c)\<close> and \<open>c.join(parts)\<close> for a one-character \<open>c\<close>.\<close>

fun split_chr :: "char \<Rightarrow> string \<Rightarrow> string list" where
  "split_chr c [] = [[]]"
| "split_chr c (x # xs) =
     (if x = c then [] # split_chr c xs
      else (case split_chr c xs of
              [] \<Rightarrow> [[x]]
            | l # ls \<Rightarrow> (x # l) # ls))"

fun join_chr :: "char \<Rightarrow> string list \<Rightarrow> string" where
  "join_chr c [] = []"
| "join_chr c [l] = l"
| "join_chr c (l # ls) = l @ c # join_chr c ls"

text \<open>\<open>re.sub(r'^portrule =.*$', rule, content, flags=re.MULTILINE)\<close>: every line (lines
  end at a line feed) that starts with \<open>portrule =\<close> becomes \<open>rule\<close>.\<close>

definition sub_portrule :: "string \<Rightarrow> string \<Rightarrow> string" where
  "sub_portrule rule content =
     join_chr (CHR 0x0A)
       (map (\<lambda>l. if startswith l ''portrule ='' then rule else l)
            (split_chr (CHR 0x0A) content))"

text \<open>\<open>\w\<close> of a text pattern, on code points below 256: letters, digits, numeric signs
  and the underscore.\<close>

definition is_word :: "char \<Rightarrow> bool" where
  "is_word c =
     (let n = of_char c :: nat
      in (48 \<le> n \<and> n \<le> 57) \<or> (65 \<le> n \<and> n \<le> 90) \<or> n = 95 \<or> (97 \<le> n \<and> n \<le> 122)
         \<or> n = 170 \<or> n = 178 \<or> n = 179 \<or> n = 181 \<or> n = 185 \<or> n = 186
         \<or> (188 \<le> n \<and> n \<le> 190) \<or> (192 \<le> n \<and> n \<le> 214) \<or> (216 \<le> n \<and> n \<le> 246)
         \<or> 248 \<le> n)"

text \<open>\<open>re.search(r'(\w+):(\w+)', output)\<close>: the leftmost position where a run of word
  characters is followed by a colon and a word character; both groups are greedy.\<close>

definition match_cred_at :: "string \<Rightarrow> (string \<times> string) option" where
  "match_cred_at s =
     (let w = takeWhile is_word s; rest = dropWhile is_word s
      in if w \<noteq> [] \<and> take 1 rest = '':'' \<and> takeWhile is_word (drop 1 rest) \<noteq> []
         then Some (w, takeWhile is_word (drop 1 rest))
         else None)"

fun search_cred :: "string \<Rightarrow> (string \<times> string) option" where
  "search_cred [] = None"
| "search_cred (c # cs) =
     (case match_cred_at (c # cs) of
        Some m \<Rightarrow> Some m
      | None \<Rightarrow> search_cred cs)"

text \<open>What \<open>subprocess.run\<close> does with the command: it returns the captured standard
  output, raises \<open>TimeoutExpired\<close>, or raises another exception whose text is given.\<close>

datatype proc_outcome = Completed string | TimeoutExpired | ProcError string

text \<open>
  What \<open>scan_with_nmap\<close> reads besides the target and the checker's state:
  \<open>args.no_cache\<close>, \<open>self.nmap_script\<close>, \<open>self.fingerprints\<close>, \<open>SCRIPT_DIR\<close>, the text of
  the error with which the operating system refuses to create the temporary script (if it
  does), the scanner process, and the clock reading used by \<open>_save_result\<close>.
\<close>

record nmap_env =
  no_cache :: bool
  nmap_script :: "string option"
  fingerprints :: string
  script_dir :: string
  write_error :: "string option"
  run :: "string list \<Rightarrow> proc_outcome"
  nmap_now :: string

definition temp_script_path :: "nmap_env \<Rightarrow> target \<Rightarrow> string" where
  "temp_script_path env t =
     script_dir env @ ''/temp_'' @ t_host t @ ''_'' @ str_int (t_port t) @ ''.nse''"

definition nmap_cmd :: "nmap_env \<Rightarrow> target \<Rightarrow> string list" where
  "nmap_cmd env t =
     [''nmap'', ''-sT'', ''-p'', str_int (t_port t), ''-Pn'', ''-n'',
      ''--script'', temp_script_path env t,
      ''--script-args'', ''http-default-accounts.fingerprintfile='' @ fingerprints env,
      t_host t]"

definition portrule_for :: "target \<Rightarrow> string" where
  "portrule_for t =
     ''portrule = shortport.port_or_service( {'' @ str_int (t_port t)
       @ ''}, {\"http\", \"https\"}, \"tcp\", \"open\")''"

text \<open>
  The body of the \<open>try\<close> statement of \<open>scan_with_nmap\<close> (lines 230-276) together with its
  two handlers: the result dictionary and the files when control reaches \<open>_save_result\<close>.
  The statement \<open>temp_script.unlink(missing_ok=True)\<close> is the last one in the \<open>try\<close> body,
  so it runs only when nothing before it raised.
\<close>

definition nmap_try :: "nmap_env \<Rightarrow> checker \<Rightarrow> target \<Rightarrow> scan_result \<Rightarrow> scan_result \<times> checker" where
  "nmap_try env s t result =
     (let temp_script = temp_script_path env t
      in case nmap_script env of
           None \<Rightarrow>
             (result\<lparr>r_response :=
                 Some ''Error: expected str, bytes or os.PathLike object, not NoneType''\<rparr>, s)
         | Some script \<Rightarrow>
             (case files s script of
                None \<Rightarrow>
                  (result\<lparr>r_response :=
                      Some (''Error: [Errno 2] No such file or directory: '' @ [CHR 0x27]
                              @ script @ [CHR 0x27])\<rparr>, s)
              | Some script_content \<Rightarrow>
                  (case write_error env of
                     Some msg \<Rightarrow> (result\<lparr>r_response := Some (''Error: '' @ msg)\<rparr>, s)
                   | None \<Rightarrow>
                       (let s1 = s\<lparr>files := (files s)
                                     (temp_script \<mapsto> sub_portrule (portrule_for t) script_content)\<rparr>
                        in case run env (nmap_cmd env t) of
                             TimeoutExpired \<Rightarrow> (result\<lparr>r_response := Some ''Timeout''\<rparr>, s1)
                           | ProcError msg \<Rightarrow>
                               (result\<lparr>r_response := Some (''Error: '' @ msg)\<rparr>, s1)
                           | Completed output \<Rightarrow>
                               (let result1 =
                                      (if contains (lower output) ''credentials found''
                                          \<or> contains (lower output) ''valid credentials''
                                       then (case search_cred output of
                                               Some (u, p) \<Rightarrow>
                                                 result\<lparr>r_success := True,
                                                        r_username := Some u,
                                                        r_password := Some p\<rparr>
                                             | None \<Rightarrow> result\<lparr>r_success := True\<rparr>)
                                       else result)
                                in (result1\<lparr>r_response := Some output\<rparr>,
                                    s1\<lparr>files := (files s1)(temp_script := None)\<rparr>))))))"

definition scan_with_nmap :: "nmap_env \<Rightarrow> checker \<Rightarrow> target \<Rightarrow> scan_result \<times> checker" where
  "scan_with_nmap env s t =
     (let result = \<lparr>r_url = t_url t, r_host = t_host t, r_port = t_port t,
                    r_proto = t_proto t, r_method = ''nmap-nse'', r_username = None,
                    r_password = None, r_success = False, r_response = None,
                    r_cached = False\<rparr>
      in case (if no_cache env then None else cache_lookup s t) of
           Some cached \<Rightarrow>
             (result\<lparr>r_success := row_success cached,
                     r_username := Some (row_username cached),
                     r_password := Some (row_password cached),
                     r_response := Some (row_response cached),
                     r_cached := True\<rparr>, s)
         | None \<Rightarrow>
             (case nmap_try env s t result of
                (result1, s1) \<Rightarrow> (result1, save_result s1 result1 (nmap_now env))))"

section \<open>The credential probe engine\<close>

record cred =
  username :: string
  password :: string
  service :: string

definition DEFAULT_CREDS :: "cred list" where
  "DEFAULT_CREDS =
     [\<lparr>username = ''admin'', password = ''admin'', service = ''generic''\<rparr>,
      \<lparr>username = ''admin'', password = ''password'', service = ''generic''\<rparr>,
      \<lparr>username = ''root'', password = ''root'', service = ''generic''\<rparr>,
      \<lparr>username = ''root'', password = ''toor'', service = ''generic''\<rparr>,
      \<lparr>username = ''administrator'', password = ''administrator'', service = ''generic''\<rparr>,
      \<lparr>username = ''admin'', password = '''', service = ''generic''\<rparr>,
      \<lparr>username = ''admin'', password = ''1234'', service = ''generic''\<rparr>,
      \<lparr>username = ''admin'', password = ''12345'', service = ''generic''\<rparr>,
      \<lparr>username = ''tomcat'', password = ''tomcat'', service = ''tomcat''\<rparr>,
      \<lparr>username = ''tomcat'', password = ''s3cret'', service = ''tomcat''\<rparr>]"

definition USER_AGENTS :: "string list" where
  "USER_AGENTS =
     [''Mozilla/5.0 (Windows NT 10.0; Win64; x64) AppleWebKit/537.36 (KHTML, like Gecko) Chrome/119.0.0.0 Safari/537.36'',
      ''Mozilla/5.0 (Macintosh; Intel Mac OS X 10_15_7) AppleWebKit/537.36 (KHTML, like Gecko) Chrome/119.0.0.0 Safari/537.36'',
      ''Mozilla/5.0 (Windows NT 10.0; Win64; x64; rv:109.0) Gecko/20100101 Firefox/119.0'',
      ''Mozilla/5.0 (X11; Linux x86_64) AppleWebKit/537.36 (KHTML, like Gecko) Chrome/119.0.0.0 Safari/537.36'']"

text \<open>One call of \<open>client.get\<close>: the URL, the Basic-Auth pair and the headers.  The
  timeout, \<open>verify=False\<close> and \<open>follow_redirects=True\<close> are the same in every call.\<close>

record request =
  req_url :: string
  req_auth :: "string \<times> string"
  req_headers :: "(string \<times> string) list"

text \<open>What the call does: it returns a response (status code and text) or raises an
  exception whose text is given.\<close>

datatype http_outcome = Response int string | TransportError string

text \<open>
  What \<open>scan_with_custom\<close> reads besides the target and the checker's state: whether
  \<open>import httpx\<close> succeeds, \<open>args.evasion\<close>, the transport (it may answer the n-th request
  of a run in its own way), the index \<open>random.choice\<close> picks for the n-th request, the
  text of the exception with which \<open>_save_result\<close> fails in the n-th iteration (if it is
  called there and fails: \<open>connect\<close>, \<open>execute\<close> or \<open>commit\<close> raises and no row is stored),
  and the clock reading used by \<open>_save_result\<close>.  The two \<open>time.sleep\<close> calls change no
  data and are left out; the construction of the client is taken to succeed.
\<close>

record custom_env =
  httpx_available :: bool
  evasion :: bool
  transport :: "nat \<Rightarrow> request \<Rightarrow> http_outcome"
  ua_choice :: "nat \<Rightarrow> nat"
  save_error :: "nat \<Rightarrow> string option"
  custom_now :: string

text \<open>Lines 324-326: the status is 200 and the lowercased text holds one of the three
  indicators.\<close>

definition is_success :: "int \<Rightarrow> string \<Rightarrow> bool" where
  "is_success status_code text =
     (status_code = 200
      \<and> list_ex (\<lambda>indicator. contains (lower text) indicator)
                [''logout'', ''dashboard'', ''welcome''])"

definition build_request :: "custom_env \<Rightarrow> target \<Rightarrow> nat \<Rightarrow> cred \<Rightarrow> request" where
  "build_request env t i c =
     \<lparr>req_url = t_proto t @ ''://'' @ t_host t @ '':'' @ str_int (t_port t) @ t_path t,
      req_auth = (username c, password c),
      req_headers = (if evasion env
                     then [(''User-Agent'', USER_AGENTS ! (ua_choice env i mod length USER_AGENTS))]
                     else [])\<rparr>"

text \<open>One iteration of the loop up to the call of \<open>_save_result\<close> (lines 297-329, and the
  handler of line 335 for an exception of the request): the dictionary \<open>result\<close>.\<close>

definition try_cred :: "custom_env \<Rightarrow> target \<Rightarrow> nat \<Rightarrow> cred \<Rightarrow> scan_result" where
  "try_cred env t i c =
     (let result = \<lparr>r_url = t_url t, r_host = t_host t, r_port = t_port t,
                    r_proto = t_proto t, r_method = ''custom-basic'',
                    r_username = Some (username c), r_password = Some (password c),
                    r_success = False, r_response = None, r_cached = False\<rparr>
      in case transport env i (build_request env t i c) of
           Response status_code text \<Rightarrow>
             if is_success status_code text
             then result\<lparr>r_success := True,
                         r_response := Some (''HTTP '' @ str_int status_code @ '' - Authenticated'')\<rparr>
             else result
         | TransportError msg \<Rightarrow> result\<lparr>r_response := Some (''Error: '' @ msg)\<rparr>)"

text \<open>
  The dictionary \<open>result\<close> when the iteration ends.  On a success the dictionary is appended
  to \<open>results\<close> (line 329) and \<open>_save_result\<close> is called (line 330), both inside the \<open>try\<close>
  statement.  When \<open>_save_result\<close> raises, the handler of line 335 catches the exception and
  overwrites the \<open>response\<close> entry of the dictionary, which is the object already in
  \<open>results\<close>.
\<close>

definition attempt_end :: "custom_env \<Rightarrow> target \<Rightarrow> nat \<Rightarrow> cred \<Rightarrow> scan_result" where
  "attempt_end env t i c =
     (let result = try_cred env t i c
      in if r_success result
         then (case save_error env i of
                 None \<Rightarrow> result
               | Some msg \<Rightarrow> result\<lparr>r_response := Some (''Error: '' @ msg)\<rparr>)
         else result)"

text \<open>
  A run of \<open>scan_with_custom\<close>: the checker's state, the returned list \<open>results\<close>, and two
  logs kept for the proofs: the requests issued, in order, and the \<open>result\<close> dictionary of
  every iteration (the code drops the dictionary of an iteration that did not succeed).
\<close>

record probe =
  p_checker :: checker
  p_results :: "scan_result list"
  p_requests :: "request list"
  p_attempts :: "scan_result list"

text \<open>The loop over the credentials; \<open>i\<close> counts the requests of this run.  A success
  whose row is stored leaves the loop (\<open>break\<close>, line 331).  A success whose
  \<open>_save_result\<close> raises never reaches \<open>break\<close>: the handler runs and the loop goes on with
  the next credential.\<close>

fun probe_loop :: "custom_env \<Rightarrow> target \<Rightarrow> nat \<Rightarrow> cred list \<Rightarrow> probe \<Rightarrow> probe" where
  "probe_loop env t i [] st = st"
| "probe_loop env t i (c # cs) st =
     (let result = try_cred env t i c;
          st1 = st\<lparr>p_requests := p_requests st @ [build_request env t i c],
                   p_attempts := p_attempts st @ [attempt_end env t i c]\<rparr>
      in if r_success result
         then (case save_error env i of
                 None \<Rightarrow>
                   st1\<lparr>p_results := p_results st1 @ [result],
                       p_checker := save_result (p_checker st1) result (custom_now env)\<rparr>
               | Some msg \<Rightarrow>
                   probe_loop env t (i + 1) cs
                     (st1\<lparr>p_results := p_results st1 @ [attempt_end env t i c]\<rparr>))
         else probe_loop env t (i + 1) cs st1)"

definition scan_with_custom :: "custom_env \<Rightarrow> checker \<Rightarrow> target \<Rightarrow> probe" where
  "scan_with_custom env s t =
     (let st = \<lparr>p_checker = s, p_results = [], p_requests = [], p_attempts = []\<rparr>
      in if httpx_available env then probe_loop env t 0 DEFAULT_CREDS st else st)"

text \<open>The port text of an input as the URL library reads it from the netloc: \<open>None\<close> when
  the input names no port (or cannot be split).\<close>

definition port_text :: "urllib \<Rightarrow> string \<Rightarrow> string option" where
  "port_text lib raw =
     (case urlparse lib (ensure_scheme raw) of Inl _ \<Rightarrow> None | Inr p \<Rightarrow> snd (hostinfo p))"

section \<open>The success rule in the specification's words\<close>

text \<open>The classification as the specification states it, for comparison with
  \<open>is_success\<close>: the status is 200 and the lowercased body contains at least one of the
  markers \<open>logout\<close>, \<open>dashboard\<close>, \<open>welcome\<close> (it can be cut into a text before the marker,
  the marker, and a text after it).\<close>

definition spec_success :: "int \<Rightarrow> string \<Rightarrow> bool" where
  "spec_success status body =
     (status = 200
      \<and> (\<exists>marker \<in> {''logout'', ''dashboard'', ''welcome''}.
            \<exists>before after. lower body = before @ marker @ after))"

section \<open>Properties of the target parser\<close>

lemma ensure_scheme_cases:
  "(\<exists>r. ensure_scheme raw = ''http://'' @ r) \<or> (\<exists>r. ensure_scheme raw = ''https://'' @ r)"
  unfolding ensure_scheme_def startswith_def
  by (metis append_take_drop_id)

lemma ensure_scheme_missing:
  "\<not> startswith raw ''http://'' \<Longrightarrow> \<not> startswith raw ''https://'' \<Longrightarrow>
   ensure_scheme raw = ''http://'' @ raw"
  by (simp add: ensure_scheme_def)


lemma urlsplit_http_scheme:
  "urlsplit lib (''http://'' @ r) = Inr p \<Longrightarrow> scheme p = ''http''"
  by (auto simp: urlsplit_def Let_def c0_control_or_space_def unsafe_url_byte_def find_from_def
      is_ascii_alpha_def scheme_chars_def lower_def lower_char_def split: prod.splits if_splits)

lemma urlsplit_https_scheme:
  "urlsplit lib (''https://'' @ r) = Inr p \<Longrightarrow> scheme p = ''https''"
  by (auto simp: urlsplit_def Let_def c0_control_or_space_def unsafe_url_byte_def find_from_def
      is_ascii_alpha_def scheme_chars_def lower_def lower_char_def split: prod.splits if_splits)

lemma urlparse_scheme:
  "urlparse lib u = Inr p \<Longrightarrow>
   \<exists>q. urlsplit lib u = Inr q \<and> scheme p = scheme q \<and> netloc p = netloc q"
  by (auto simp: urlparse_def split: sum.splits if_splits prod.splits)



lemma urlparse_ensure_scheme:
  assumes "urlparse lib (ensure_scheme raw) = Inr p"
  shows "scheme p = ''http'' \<or> scheme p = ''https''"
proof -
  obtain q where q: "urlsplit lib (ensure_scheme raw) = Inr q" "scheme p = scheme q"
    using urlparse_scheme [OF assms] by blast
  from ensure_scheme_cases [of raw] show ?thesis
  proof
    assume "\<exists>r. ensure_scheme raw = ''http://'' @ r"
    then obtain r where "ensure_scheme raw = ''http://'' @ r" ..
    with q urlsplit_http_scheme [of lib r q] show ?thesis by simp
  next
    assume "\<exists>r. ensure_scheme raw = ''https://'' @ r"
    then obtain r where "ensure_scheme raw = ''https://'' @ r" ..
    with q urlsplit_https_scheme [of lib r q] show ?thesis by simp
  qed
qed

lemma urlparse_missing_scheme:
  assumes "urlparse lib (ensure_scheme raw) = Inr p"
    and "\<not> startswith raw ''http://''" and "\<not> startswith raw ''https://''"
  shows "scheme p = ''http''"
proof -
  obtain q where q: "urlsplit lib (ensure_scheme raw) = Inr q" "scheme p = scheme q"
    using urlparse_scheme [OF assms(1)] by blast
  with ensure_scheme_missing [OF assms(2,3)] urlsplit_http_scheme [of lib raw q]
  show ?thesis by simp
qed

lemma parse_url_Inr:
  assumes "parse_url lib raw = Inr t"
  obtains p n where "urlparse lib (ensure_scheme raw) = Inr p" and "port lib p = Inr n"
    and "t_url t = ensure_scheme raw"
    and "t_proto t = (if scheme p \<noteq> '''' then scheme p else ''http'')"
    and "t_host t = (case hostname p of Some h \<Rightarrow> h
                     | None \<Rightarrow> takeWhile (\<lambda>c. c \<noteq> CHR '':'') (netloc p))"
    and "t_port t = (case n of None \<Rightarrow> (if t_proto t = ''https'' then 443 else 80)
                     | Some k \<Rightarrow> if k = 0 then (if t_proto t = ''https'' then 443 else 80) else k)"
    and "t_path t = (if ppath p \<noteq> '''' then ppath p else ''/'')"
  using assms by (auto simp: parse_url_def Let_def split: sum.splits)

lemma port_None: "snd (hostinfo p) = None \<Longrightarrow> port lib p = Inr None"
  by (simp add: port_def)

lemma int_of_digits_aux:
  "list_all is_ascii_digit d \<Longrightarrow> 0 \<le> a \<Longrightarrow>
   0 \<le> foldl (\<lambda>acc c. 10 * acc + (int (of_char c) - 48)) a d"
proof (induction d arbitrary: a)
  case Nil
  then show ?case by simp
next
  case (Cons c d)
  from Cons.prems have "0 \<le> 10 * a + (int (of_char c) - 48)"
    by (simp add: is_ascii_digit_def)
  with Cons show ?case by simp
qed

lemma int_of_digits_nonneg: "list_all is_ascii_digit d \<Longrightarrow> 0 \<le> int_of_digits d"
  unfolding int_of_digits_def by (rule int_of_digits_aux) simp_all

lemma hostinfo_empty_netloc: "netloc p = '''' \<Longrightarrow> hostinfo p = ('''', None)"
  by (simp add: hostinfo_def rpartition_chr_def partition_chr_def)

lemmas parse_url_unfold =
  parse_url_def ensure_scheme_def startswith_def urlparse_def urlsplit_def Let_def
  c0_control_or_space_def unsafe_url_byte_def find_from_def is_ascii_alpha_def
  scheme_chars_def lower_def lower_char_def splitnetloc_def uses_params_def hostname_def
  hostinfo_def port_def partition_chr_def rpartition_chr_def is_ascii_digit_def
  int_of_digits_def port_text_def char_of_eq_iff is_ascii_def

text \<open>
  Claim C1, as amended.  \<open>parse_url\<close> has no failure of its own and none for a missing
  host: when no host can be extracted (the netloc is empty) it returns a target whose host
  is the empty text.  Whenever it fails, the URL library raised the error, in \<open>urlparse\<close> or
  in the \<open>port\<close> property (a \<open>ValueError\<close>); this also happens on inputs with a host.  The
  function reads and writes no state.
\<close>

theorem parse_url_fails_only_with_library_ValueError:
  "(urlparse lib (ensure_scheme raw) = Inr p \<and> netloc p = ''''
      \<longrightarrow> (\<exists>t. parse_url lib raw = Inr t \<and> t_host t = ''''))
   \<and> (parse_url lib raw = Inl e
      \<longrightarrow> urlparse lib (ensure_scheme raw) = Inl e
          \<or> (\<exists>q. urlparse lib (ensure_scheme raw) = Inr q \<and> port lib q = Inl e))"
proof (intro conjI impI)
  assume a: "urlparse lib (ensure_scheme raw) = Inr p \<and> netloc p = ''''"
  then have "hostinfo p = ('''', None)" by (simp add: hostinfo_empty_netloc)
  with a show "\<exists>t. parse_url lib raw = Inr t \<and> t_host t = ''''"
    by (simp add: parse_url_def Let_def hostname_def port_def)
next
  assume "parse_url lib raw = Inl e"
  then show "urlparse lib (ensure_scheme raw) = Inl e
          \<or> (\<exists>q. urlparse lib (ensure_scheme raw) = Inr q \<and> port lib q = Inl e)"
    by (auto simp: parse_url_def Let_def split: sum.splits)
qed

text \<open>Witness for C1 as amended: the input \<open>/admin\<close> has an empty netloc and is returned
  with an empty host; the input \<open>host:abc\<close> fails, and the error is the one the \<open>port\<close>
  property raises on the port text \<open>abc\<close>.\<close>

theorem parse_url_fails_only_with_library_ValueError_witness:
  "(\<exists>t. parse_url \<lparr>bracket_ok = {}, netloc_rejected = {}, max_str_digits = 4300\<rparr> ''/admin'' = Inr t \<and> t_host t = '''')
   \<and> parse_url \<lparr>bracket_ok = {}, netloc_rejected = {}, max_str_digits = 4300\<rparr> ''host:abc'' = Inl (ValueError PortNotInteger)
   \<and> port \<lparr>bracket_ok = {}, netloc_rejected = {}, max_str_digits = 4300\<rparr> \<lparr>scheme = ''http'', netloc = ''host:abc'', ppath = '''', params = '''',
                query = '''', fragment = ''''\<rparr> = Inl (ValueError PortNotInteger)"
proof -
  let ?p = "\<lparr>scheme = ''http'', netloc = '''', ppath = ''/admin'', params = '''',
             query = '''', fragment = ''''\<rparr>"
  let ?q = "\<lparr>scheme = ''http'', netloc = ''host:abc'', ppath = '''', params = '''',
             query = '''', fragment = ''''\<rparr>"
  have p: "urlparse \<lparr>bracket_ok = {}, netloc_rejected = {}, max_str_digits = 4300\<rparr> (ensure_scheme ''/admin'') = Inr ?p \<and> netloc ?p = ''''"
    by (simp add: parse_url_unfold)
  have f: "parse_url \<lparr>bracket_ok = {}, netloc_rejected = {}, max_str_digits = 4300\<rparr> ''host:abc'' = Inl (ValueError PortNotInteger)"
    by (simp add: parse_url_unfold)
  have q: "urlparse \<lparr>bracket_ok = {}, netloc_rejected = {}, max_str_digits = 4300\<rparr> (ensure_scheme ''host:abc'') = Inr ?q"
    by (simp add: parse_url_unfold)
  from parse_url_fails_only_with_library_ValueError
         [of "\<lparr>bracket_ok = {}, netloc_rejected = {}, max_str_digits = 4300\<rparr>" "''/admin''" ?p "ValueError PortNotInteger"] p
  have 1: "\<exists>t. parse_url \<lparr>bracket_ok = {}, netloc_rejected = {}, max_str_digits = 4300\<rparr> ''/admin'' = Inr t \<and> t_host t = ''''"
    by blast
  from parse_url_fails_only_with_library_ValueError
         [of "\<lparr>bracket_ok = {}, netloc_rejected = {}, max_str_digits = 4300\<rparr>" "''host:abc''" ?p "ValueError PortNotInteger"] f q
  have 2: "port \<lparr>bracket_ok = {}, netloc_rejected = {}, max_str_digits = 4300\<rparr> ?q = Inl (ValueError PortNotInteger)"
    by auto
  from 1 f 2 show ?thesis by blast
qed

text \<open>
  Counterexample to C1 as stated.  The empty input yields no host, and \<open>parse_url\<close> returns
  a target (host empty, port 80) instead of failing; the input \<open>host:abc\<close> has the host
  \<open>host\<close>, and \<open>parse_url\<close> fails with the library's \<open>ValueError\<close>.  Neither input contains a
  bracket or a character outside ASCII, and the port text has three characters, so what
  the library record holds plays no part.
\<close>

theorem parse_url_invalid_target_counterexample:
  "parse_url \<lparr>bracket_ok = {}, netloc_rejected = {}, max_str_digits = 4300\<rparr> '''' =
     Inr \<lparr>t_url = ''http://'', t_proto = ''http'', t_host = '''', t_port = 80, t_path = ''/''\<rparr>
   \<and> parse_url \<lparr>bracket_ok = {}, netloc_rejected = {}, max_str_digits = 4300\<rparr> ''host:abc'' = Inl (ValueError PortNotInteger)"
  by (simp add: parse_url_unfold)

text \<open>
  Claim C8.  For an input that starts with neither \<open>http://\<close> nor \<open>https://\<close>, every target
  \<open>parse_url\<close> returns has the scheme \<open>http\<close>, and the port 80 when the input names no
  port.  For any input, a returned target whose input names no port has port 80 with
  scheme \<open>http\<close> and port 443 with scheme \<open>https\<close>.  The input \<open>192.168.1.1\<close> parses to
  scheme \<open>http\<close>, host \<open>192.168.1.1\<close>, port 80 and path \<open>/\<close>.
\<close>

theorem parse_url_default_scheme_and_port:
  "(parse_url lib raw = Inr t \<and> \<not> startswith raw ''http://'' \<and> \<not> startswith raw ''https://''
      \<longrightarrow> t_proto t = ''http'' \<and> (port_text lib raw = None \<longrightarrow> t_port t = 80))
   \<and> (parse_url lib raw = Inr t \<and> port_text lib raw = None
      \<longrightarrow> (t_proto t = ''http'' \<and> t_port t = 80) \<or> (t_proto t = ''https'' \<and> t_port t = 443))
   \<and> parse_url lib ''192.168.1.1'' =
        Inr \<lparr>t_url = ''http://192.168.1.1'', t_proto = ''http'', t_host = ''192.168.1.1'',
             t_port = 80, t_path = ''/''\<rparr>"
proof (intro conjI impI)
  assume a: "parse_url lib raw = Inr t \<and> \<not> startswith raw ''http://''
             \<and> \<not> startswith raw ''https://''"
  then obtain p n where p: "urlparse lib (ensure_scheme raw) = Inr p" "port lib p = Inr n"
    "t_proto t = (if scheme p \<noteq> '''' then scheme p else ''http'')"
    "t_port t = (case n of None \<Rightarrow> (if t_proto t = ''https'' then 443 else 80)
                 | Some k \<Rightarrow> if k = 0 then (if t_proto t = ''https'' then 443 else 80) else k)"
    by (auto elim: parse_url_Inr)
  from a p(1) have "scheme p = ''http''" by (simp add: urlparse_missing_scheme)
  with p(3) show proto: "t_proto t = ''http''" by simp
  assume "port_text lib raw = None"
  with p(1) have "port lib p = Inr None" by (simp add: port_text_def port_None)
  with p(2,4) proto show "t_port t = 80" by simp
next
  assume a: "parse_url lib raw = Inr t \<and> port_text lib raw = None"
  then obtain p n where p: "urlparse lib (ensure_scheme raw) = Inr p" "port lib p = Inr n"
    "t_proto t = (if scheme p \<noteq> '''' then scheme p else ''http'')"
    "t_port t = (case n of None \<Rightarrow> (if t_proto t = ''https'' then 443 else 80)
                 | Some k \<Rightarrow> if k = 0 then (if t_proto t = ''https'' then 443 else 80) else k)"
    by (auto elim: parse_url_Inr)
  from a p(1) have "port lib p = Inr None" by (simp add: port_text_def port_None)
  with p(2) have n: "n = None" by simp
  from urlparse_ensure_scheme [OF p(1)] p(3,4) n
  show "(t_proto t = ''http'' \<and> t_port t = 80) \<or> (t_proto t = ''https'' \<and> t_port t = 443)"
    by auto
next
  show "parse_url lib ''192.168.1.1'' =
        Inr \<lparr>t_url = ''http://192.168.1.1'', t_proto = ''http'', t_host = ''192.168.1.1'',
             t_port = 80, t_path = ''/''\<rparr>"
    by (simp add: parse_url_unfold)
qed

text \<open>Witness for C8: \<open>example.com/login\<close> has no scheme and no port; 
  \<open>https://example.com\<close> has no port.\<close>

theorem parse_url_default_scheme_and_port_witness:
  "parse_url \<lparr>bracket_ok = {}, netloc_rejected = {}, max_str_digits = 4300\<rparr> ''example.com/login'' =
     Inr \<lparr>t_url = ''http://example.com/login'', t_proto = ''http'', t_host = ''example.com'',
          t_port = 80, t_path = ''/login''\<rparr>
   \<and> \<not> startswith ''example.com/login'' ''http://''
   \<and> \<not> startswith ''example.com/login'' ''https://''
   \<and> port_text \<lparr>bracket_ok = {}, netloc_rejected = {}, max_str_digits = 4300\<rparr> ''example.com/login'' = None
   \<and> parse_url \<lparr>bracket_ok = {}, netloc_rejected = {}, max_str_digits = 4300\<rparr> ''https://example.com'' =
     Inr \<lparr>t_url = ''https://example.com'', t_proto = ''https'', t_host = ''example.com'',
          t_port = 443, t_path = ''/''\<rparr>
   \<and> port_text \<lparr>bracket_ok = {}, netloc_rejected = {}, max_str_digits = 4300\<rparr> ''https://example.com'' = None"
proof -
  let ?t = "\<lparr>t_url = ''http://example.com/login'', t_proto = ''http'',
             t_host = ''example.com'', t_port = 80, t_path = ''/login''\<rparr>"
  let ?u = "\<lparr>t_url = ''https://example.com'', t_proto = ''https'',
             t_host = ''example.com'', t_port = 443, t_path = ''/''\<rparr>"
  have h1: "parse_url \<lparr>bracket_ok = {}, netloc_rejected = {}, max_str_digits = 4300\<rparr> ''example.com/login'' = Inr ?t
            \<and> \<not> startswith ''example.com/login'' ''http://''
            \<and> \<not> startswith ''example.com/login'' ''https://''"
    by (simp add: parse_url_unfold)
  have h2: "port_text \<lparr>bracket_ok = {}, netloc_rejected = {}, max_str_digits = 4300\<rparr> ''example.com/login'' = None"
    by (simp add: parse_url_unfold)
  have h3: "parse_url \<lparr>bracket_ok = {}, netloc_rejected = {}, max_str_digits = 4300\<rparr> ''https://example.com'' = Inr ?u"
    by (simp add: parse_url_unfold)
  have h4: "port_text \<lparr>bracket_ok = {}, netloc_rejected = {}, max_str_digits = 4300\<rparr> ''https://example.com'' = None"
    by (simp add: parse_url_unfold)
  from parse_url_default_scheme_and_port [of "\<lparr>bracket_ok = {}, netloc_rejected = {}, max_str_digits = 4300\<rparr>" "''example.com/login''" ?t] h1 h2
  have "t_proto ?t = ''http'' \<and> t_port ?t = 80" by blast
  moreover from parse_url_default_scheme_and_port [of "\<lparr>bracket_ok = {}, netloc_rejected = {}, max_str_digits = 4300\<rparr>" "''https://example.com''" ?u] h3 h4
  have "(t_proto ?u = ''http'' \<and> t_port ?u = 80) \<or> (t_proto ?u = ''https'' \<and> t_port ?u = 443)"
    by blast
  ultimately show ?thesis using h1 h2 h3 h4 by simp
qed



section \<open>Properties of the result store\<close>

lemma mset_insert_desc: "mset (insert_desc r xs) = add_mset r (mset xs)"
  by (induction xs) auto

lemma set_insert_desc: "set (insert_desc r xs) = insert r (set xs)"
  by (induction xs) auto

lemma sorted_insert_desc:
  "sorted_wrt (\<lambda>a b. row_timestamp b \<le> row_timestamp a) xs \<Longrightarrow>
   sorted_wrt (\<lambda>a b. row_timestamp b \<le> row_timestamp a) (insert_desc r xs)"
proof (induction xs)
  case Nil
  then show ?case by simp
next
  case (Cons x xs)
  show ?case
  proof (cases "row_timestamp x < row_timestamp r")
    case True
    with Cons.prems show ?thesis by (auto intro: order.trans less_imp_le)
  next
    case False
    with Cons show ?thesis by (auto simp: set_insert_desc)
  qed
qed

lemma foldl_insert_desc:
  "mset (foldl (\<lambda>acc r. insert_desc r acc) acc xs) = mset acc + mset xs"
  by (induction xs arbitrary: acc) (simp_all add: mset_insert_desc)

lemma foldl_insert_desc_sorted:
  "sorted_wrt (\<lambda>a b. row_timestamp b \<le> row_timestamp a) acc \<Longrightarrow>
   sorted_wrt (\<lambda>a b. row_timestamp b \<le> row_timestamp a)
     (foldl (\<lambda>acc r. insert_desc r acc) acc xs)"
  by (induction xs arbitrary: acc) (simp_all add: sorted_insert_desc)

lemma mset_order_by: "mset (order_by_timestamp_desc xs) = mset xs"
  by (simp add: order_by_timestamp_desc_def foldl_insert_desc)

lemma sorted_order_by:
  "sorted_wrt (\<lambda>a b. row_timestamp b \<le> row_timestamp a) (order_by_timestamp_desc xs)"
  by (simp add: order_by_timestamp_desc_def foldl_insert_desc_sorted)

lemma order_by_Nil_iff: "order_by_timestamp_desc xs = [] \<longleftrightarrow> xs = []"
  using mset_order_by [of xs] by (metis mset_zero_iff)

lemma db_save_result:
  "db (save_result s r now) = db s @ [row_of (length (db s) + 1) r now]"
  by (simp add: save_result_def)

lemma length_zfill: "length (zfill w n) = w"
  by (induction w arbitrary: n) simp_all

lemma append_less_eqlen:
  fixes xs ys :: string
  shows "length xs = length ys \<Longrightarrow> (xs @ us < ys @ vs \<longleftrightarrow> xs < ys \<or> (xs = ys \<and> us < vs))"
  by (induction xs ys rule: list_induct2) auto

lemma digit_less: "a < 10 \<Longrightarrow> b < 10 \<Longrightarrow>
   (char_of (48 + a) :: char) < char_of (48 + b) \<longleftrightarrow> (a::nat) < b"
  by (simp add: less_char_def)

lemma digit_eq: "a < 10 \<Longrightarrow> b < 10 \<Longrightarrow>
   (char_of (48 + a) :: char) = char_of (48 + b) \<longleftrightarrow> (a::nat) = b"
  by simp

lemma lex_decimal:
  fixes a b r q :: nat
  shows "r < 10 \<Longrightarrow> q < 10 \<Longrightarrow>
         (10 * a + r < 10 * b + q \<longleftrightarrow> a < b \<or> (a = b \<and> r < q))"
  by arith

lemma zfill_eq: "n < 10 ^ w \<Longrightarrow> m < 10 ^ w \<Longrightarrow> (zfill w n = zfill w m \<longleftrightarrow> n = m)"
proof (induction w arbitrary: n m)
  case 0
  then show ?case by simp
next
  case (Suc w)
  from Suc.prems have "n div 10 < 10 ^ w" "m div 10 < 10 ^ w"
    by (simp_all add: less_mult_imp_div_less)
  from Suc.IH [OF this]
  have "zfill w (n div 10) = zfill w (m div 10) \<longleftrightarrow> n div 10 = m div 10" .
  moreover
  have "(char_of (48 + n mod 10) :: char) = char_of (48 + m mod 10) \<longleftrightarrow> n mod 10 = m mod 10"
    by (rule digit_eq) simp_all
  moreover have "n = m \<longleftrightarrow> n div 10 = m div 10 \<and> n mod 10 = m mod 10"
    by (metis div_mult_mod_eq)
  ultimately show ?case by (simp add: length_zfill)
qed

lemma zfill_less: "n < 10 ^ w \<Longrightarrow> m < 10 ^ w \<Longrightarrow> (zfill w n < zfill w m \<longleftrightarrow> n < m)"
proof (induction w arbitrary: n m)
  case 0
  then show ?case by simp
next
  case (Suc w)
  from Suc.prems have b: "n div 10 < 10 ^ w" "m div 10 < 10 ^ w"
    by (simp_all add: less_mult_imp_div_less)
  from Suc.IH [OF b]
  have "zfill w (n div 10) < zfill w (m div 10) \<longleftrightarrow> n div 10 < m div 10" .
  moreover from zfill_eq [OF b]
  have "zfill w (n div 10) = zfill w (m div 10) \<longleftrightarrow> n div 10 = m div 10" .
  moreover
  have "(char_of (48 + n mod 10) :: char) < char_of (48 + m mod 10) \<longleftrightarrow> n mod 10 < m mod 10"
    by (rule digit_less) simp_all
  moreover
  have "n < m \<longleftrightarrow> n div 10 < m div 10 \<or> (n div 10 = m div 10 \<and> n mod 10 < m mod 10)"
    using lex_decimal [of "n mod 10" "m mod 10" "n div 10" "m div 10"] by simp
  ultimately show ?case by (simp add: append_less_eqlen length_zfill)
qed

lemma isoformat_less:
  assumes "valid_datetime a" and "valid_datetime b"
  shows "isoformat a < isoformat b \<longleftrightarrow> dt_key a < dt_key b"
proof -
  have f4: "zfill 4 (year a) < zfill 4 (year b) \<longleftrightarrow> year a < year b"
       "zfill 4 (year a) = zfill 4 (year b) \<longleftrightarrow> year a = year b"
    using assms by (simp_all add: zfill_less zfill_eq valid_datetime_def)
  have f2: "x \<le> 59 \<Longrightarrow> y \<le> 59 \<Longrightarrow> (zfill 2 x < zfill 2 y \<longleftrightarrow> x < y)"
           "x \<le> 59 \<Longrightarrow> y \<le> 59 \<Longrightarrow> (zfill 2 x = zfill 2 y \<longleftrightarrow> x = y)" for x y
    by (simp_all add: zfill_less zfill_eq)
  have f6: "zfill 6 (microsecond a) < zfill 6 (microsecond b)
            \<longleftrightarrow> microsecond a < microsecond b"
    using assms by (simp_all add: zfill_less valid_datetime_def)
  have bounds: "month a \<le> 59" "month b \<le> 59" "day a \<le> 59" "day b \<le> 59"
    "hour a \<le> 59" "hour b \<le> 59" "minute a \<le> 59" "minute b \<le> 59"
    "second a \<le> 59" "second b \<le> 59"
    using assms by (simp_all add: valid_datetime_def)
  have tail: "(if microsecond a = 0 then '''' else ''.'' @ zfill 6 (microsecond a))
                < (if microsecond b = 0 then '''' else ''.'' @ zfill 6 (microsecond b))
              \<longleftrightarrow> microsecond a < microsecond b"
    using f6 by auto
  have core: "isoformat a < isoformat b \<longleftrightarrow>
        (year a < year b \<or> year a = year b \<and>
         (month a < month b \<or> month a = month b \<and>
          (day a < day b \<or> day a = day b \<and>
           (hour a < hour b \<or> hour a = hour b \<and>
            (minute a < minute b \<or> minute a = minute b \<and>
             (second a < second b \<or> second a = second b \<and>
                microsecond a < microsecond b))))))"
    unfolding isoformat_def
    using tail f4 f2 [OF bounds(1,2)] f2 [OF bounds(3,4)] f2 [OF bounds(5,6)]
      f2 [OF bounds(7,8)] f2 [OF bounds(9,10)]
    by (simp add: append_less_eqlen length_zfill del: zfill.simps)
  have pair: "(x, p) < (y, q) \<longleftrightarrow> x < y \<or> x = y \<and> p < q"
    for x y :: nat and p q :: "'z::order"
    by auto
  show ?thesis
    unfolding core dt_key_def pair ..
qed

lemma isoformat_le:
  assumes "valid_datetime a" and "valid_datetime b"
  shows "isoformat a \<le> isoformat b \<longleftrightarrow> dt_key a \<le> dt_key b"
  using isoformat_less [OF assms(2,1)] by (simp add: not_less [symmetric])

lemma db_save_all_stamped:
  "db (foldl (\<lambda>s (r, now). save_result s r (isoformat now)) s0 rs) =
     db s0 @ map (\<lambda>(i, (r, now)). row_of (length (db s0) + 1 + i) r (isoformat now))
               (enumerate 0 rs)"
proof (induction rs arbitrary: s0 rule: rev_induct)
  case Nil
  then show ?case by simp
next
  case (snoc x rs)
  obtain r now where x: "x = (r, now)" by (cases x)
  show ?case
    by (simp add: x snoc db_save_result enumerate_append_eq)
qed

text \<open>
  Claim C6.  Let any sequence of records be appended with \<open>_save_result\<close>, each at its
  own reading of the clock, to a store \<open>s0\<close>.  The report query then returns, as a
  multiset, exactly the rows with \<open>success\<close> set: those already in \<open>s0\<close> and those of the
  appended records (only the latter when the store starts empty), and no others.  It
  returns them ordered by the timestamp text, descending; and since \<open>isoformat\<close> keeps the
  order of clock readings, a row never comes before a row stamped at a later reading:
  newest first.
\<close>

theorem successful_scans_exact_newest_first:
  "mset (successful_scans (foldl (\<lambda>s (r, now). save_result s r (isoformat now)) s0 rs))
     = mset (filter row_success (db s0))
       + mset (filter row_success
            (map (\<lambda>(i, (r, now)). row_of (length (db s0) + 1 + i) r (isoformat now))
                 (enumerate 0 rs)))
   \<and> sorted_wrt (\<lambda>a b. row_timestamp b \<le> row_timestamp a)
        (successful_scans (foldl (\<lambda>s (r, now). save_result s r (isoformat now)) s0 rs))
   \<and> sorted_wrt (\<lambda>a b. \<forall>ta tb. valid_datetime ta \<and> valid_datetime tb
                          \<and> row_timestamp a = isoformat ta \<and> row_timestamp b = isoformat tb
                          \<longrightarrow> dt_key tb \<le> dt_key ta)
        (successful_scans (foldl (\<lambda>s (r, now). save_result s r (isoformat now)) s0 rs))"
proof (intro conjI)
  let ?s = "foldl (\<lambda>s (r, now). save_result s r (isoformat now)) s0 rs"
  show "mset (successful_scans ?s)
     = mset (filter row_success (db s0))
       + mset (filter row_success
            (map (\<lambda>(i, (r, now)). row_of (length (db s0) + 1 + i) r (isoformat now))
                 (enumerate 0 rs)))"
    by (simp add: successful_scans_def mset_order_by db_save_all_stamped)
  show text_order: "sorted_wrt (\<lambda>a b. row_timestamp b \<le> row_timestamp a) (successful_scans ?s)"
    by (simp add: successful_scans_def sorted_order_by)
  show "sorted_wrt (\<lambda>a b. \<forall>ta tb. valid_datetime ta \<and> valid_datetime tb
                          \<and> row_timestamp a = isoformat ta \<and> row_timestamp b = isoformat tb
                          \<longrightarrow> dt_key tb \<le> dt_key ta)
        (successful_scans ?s)"
    by (rule sorted_wrt_mono_rel [OF _ text_order]) (auto simp: isoformat_le)
qed

text \<open>Witness for C6: three records appended at 12:00:09, 12:00:09.000500 and 12:00:10;
  the second is a failure.  The query returns the third, then the first.\<close>

theorem successful_scans_exact_newest_first_witness:
  "successful_scans (foldl (\<lambda>s (r, now). save_result s r (isoformat now))
      \<lparr>db = [], results = [], files = Map.empty\<rparr>
      [(\<lparr>r_url = ''http://a'', r_host = ''a'', r_port = 80, r_proto = ''http'',
         r_method = ''nmap-nse'', r_username = None, r_password = None,
         r_success = True, r_response = Some ''credentials found'', r_cached = False\<rparr>,
        \<lparr>year = 2024, month = 5, day = 2, hour = 12, minute = 0, second = 9, microsecond = 0\<rparr>),
       (\<lparr>r_url = ''http://b'', r_host = ''b'', r_port = 80, r_proto = ''http'',
         r_method = ''nmap-nse'', r_username = None, r_password = None,
         r_success = False, r_response = Some ''Timeout'', r_cached = False\<rparr>,
        \<lparr>year = 2024, month = 5, day = 2, hour = 12, minute = 0, second = 9,
         microsecond = 500\<rparr>),
       (\<lparr>r_url = ''http://c'', r_host = ''c'', r_port = 80, r_proto = ''http'',
         r_method = ''custom-basic'', r_username = Some ''root'', r_password = Some ''root'',
         r_success = True, r_response = Some ''HTTP 200 - Authenticated'', r_cached = False\<rparr>,
        \<lparr>year = 2024, month = 5, day = 2, hour = 12, minute = 0, second = 10,
         microsecond = 0\<rparr>)])
   = [\<lparr>row_id = 3, row_url = ''http://c'', row_host = ''c'', row_port = 80,
         row_proto = ''http'', row_method = ''custom-basic'', row_username = ''root'',
         row_password = ''root'', row_success = True,
         row_response = ''HTTP 200 - Authenticated'', row_timestamp = ''2024-05-02T12:00:10''\<rparr>,
      \<lparr>row_id = 1, row_url = ''http://a'', row_host = ''a'', row_port = 80,
         row_proto = ''http'', row_method = ''nmap-nse'', row_username = '''',
         row_password = '''', row_success = True,
         row_response = ''credentials found'', row_timestamp = ''2024-05-02T12:00:09''\<rparr>]
   \<and> dt_key \<lparr>year = 2024, month = 5, day = 2, hour = 12, minute = 0, second = 9,
              microsecond = 0\<rparr>
       \<le> dt_key \<lparr>year = 2024, month = 5, day = 2, hour = 12, minute = 0, second = 10,
                 microsecond = 0\<rparr>"
proof -
  let ?t1 = "\<lparr>year = 2024, month = 5, day = 2, hour = 12, minute = 0, second = 9,
              microsecond = 0\<rparr>"
  let ?t2 = "\<lparr>year = 2024, month = 5, day = 2, hour = 12, minute = 0, second = 9,
              microsecond = 500\<rparr>"
  let ?t3 = "\<lparr>year = 2024, month = 5, day = 2, hour = 12, minute = 0, second = 10,
              microsecond = 0\<rparr>"
  let ?ra = "\<lparr>r_url = ''http://a'', r_host = ''a'', r_port = 80, r_proto = ''http'',
         r_method = ''nmap-nse'', r_username = None, r_password = None,
         r_success = True, r_response = Some ''credentials found'', r_cached = False\<rparr>"
  let ?rb = "\<lparr>r_url = ''http://b'', r_host = ''b'', r_port = 80, r_proto = ''http'',
         r_method = ''nmap-nse'', r_username = None, r_password = None,
         r_success = False, r_response = Some ''Timeout'', r_cached = False\<rparr>"
  let ?rc = "\<lparr>r_url = ''http://c'', r_host = ''c'', r_port = 80, r_proto = ''http'',
         r_method = ''custom-basic'', r_username = Some ''root'', r_password = Some ''root'',
         r_success = True, r_response = Some ''HTTP 200 - Authenticated'', r_cached = False\<rparr>"
  let ?s = "foldl (\<lambda>s (r, now). save_result s r (isoformat now))
      \<lparr>db = [], results = [], files = Map.empty\<rparr> [(?ra, ?t1), (?rb, ?t2), (?rc, ?t3)]"
  let ?rowc = "\<lparr>row_id = 3, row_url = ''http://c'', row_host = ''c'', row_port = 80,
         row_proto = ''http'', row_method = ''custom-basic'', row_username = ''root'',
         row_password = ''root'', row_success = True,
         row_response = ''HTTP 200 - Authenticated'', row_timestamp = ''2024-05-02T12:00:10''\<rparr>"
  let ?rowa = "\<lparr>row_id = 1, row_url = ''http://a'', row_host = ''a'', row_port = 80,
         row_proto = ''http'', row_method = ''nmap-nse'', row_username = '''',
         row_password = '''', row_success = True,
         row_response = ''credentials found'', row_timestamp = ''2024-05-02T12:00:09''\<rparr>"
  have i1: "isoformat ?t1 = ''2024-05-02T12:00:09''" by code_simp
  have i2: "isoformat ?t2 = ''2024-05-02T12:00:09.000500''" by code_simp
  have i3: "isoformat ?t3 = ''2024-05-02T12:00:10''" by code_simp
  have v: "valid_datetime ?t1" "valid_datetime ?t3" by (simp_all add: valid_datetime_def)
  have rows: "successful_scans ?s = [?rowc, ?rowa]"
    by (simp add: save_result_def row_of_def get_or_empty_def i1 i2 i3 successful_scans_def
        order_by_timestamp_desc_def less_char_def)
  note th = successful_scans_exact_newest_first
         [of "\<lparr>db = [], results = [], files = Map.empty\<rparr>"
             "[(?ra, ?t1), (?rb, ?t2), (?rc, ?t3)]", THEN conjunct2, THEN conjunct2]
  from th have "\<forall>ta tb. valid_datetime ta \<and> valid_datetime tb
                \<and> row_timestamp ?rowc = isoformat ta \<and> row_timestamp ?rowa = isoformat tb
                \<longrightarrow> dt_key tb \<le> dt_key ta"
    unfolding rows by simp
  from this [THEN spec, THEN spec, of ?t3 ?t1] v i1 i3
  have key: "dt_key ?t1 \<le> dt_key ?t3" by simp
  from rows key show ?thesis by (rule conjI)
qed

section \<open>Properties of the external-scanner adapter\<close>

lemma cache_lookup_None:
  "cache_lookup s t = None \<longleftrightarrow> \<not> (\<exists>r \<in> set (db s). cache_match t r)"
proof -
  have "cache_lookup s t = None
        \<longleftrightarrow> order_by_timestamp_desc (filter (cache_match t) (db s)) = []"
    by (simp add: cache_lookup_def split: list.splits)
  then show ?thesis
    by (simp add: order_by_Nil_iff filter_empty_conv)
qed

lemma cache_lookup_Some:
  assumes "cache_lookup s t = Some c"
  shows "c \<in> set (db s) \<and> cache_match t c
         \<and> (\<forall>r \<in> set (db s). cache_match t r \<longrightarrow> row_timestamp r \<le> row_timestamp c)"
proof -
  let ?m = "filter (cache_match t) (db s)"
  from assms obtain rest where o: "order_by_timestamp_desc ?m = c # rest"
    by (auto simp: cache_lookup_def split: list.splits)
  have "set (order_by_timestamp_desc ?m) = set ?m"
    using mset_order_by [of ?m] by (metis set_mset_mset)
  with o have mem: "set ?m = insert c (set rest)" by simp
  from sorted_order_by [of ?m] o
  have "\<forall>r \<in> set rest. row_timestamp r \<le> row_timestamp c" by simp
  with mem show ?thesis by auto
qed

lemma db_nmap_try: "db (snd (nmap_try env s t result)) = db s"
  by (simp add: nmap_try_def Let_def split: option.splits proc_outcome.splits)

lemma results_nmap_try: "results (snd (nmap_try env s t result)) = results s"
  by (simp add: nmap_try_def Let_def split: option.splits proc_outcome.splits)

lemma cached_nmap_try: "r_cached (fst (nmap_try env s t result)) = r_cached result"
  by (simp add: nmap_try_def Let_def split: option.splits proc_outcome.splits prod.splits)

lemma method_nmap_try: "r_method (fst (nmap_try env s t result)) = r_method result"
  by (simp add: nmap_try_def Let_def split: option.splits proc_outcome.splits prod.splits)

text \<open>
  Claim C5.  When caching is not disabled and the store holds a row matching the target's
  host, port and protocol with method \<open>nmap-nse\<close>, \<open>scan_with_nmap\<close> leaves the state as it
  is (no record is persisted) and returns the success flag, user name, password and
  response of a matching row with the latest timestamp, tagged \<open>cached\<close>.  In every other
  execution the returned result is not tagged and exactly one row, made from the returned
  result, is appended to the store.
\<close>

theorem scan_with_nmap_cache_hit_or_one_record:
  "(\<not> no_cache env \<and> (\<exists>r \<in> set (db s). cache_match t r) \<longrightarrow>
      snd (scan_with_nmap env s t) = s
      \<and> (\<exists>c \<in> set (db s). cache_match t c
            \<and> (\<forall>r \<in> set (db s). cache_match t r \<longrightarrow> row_timestamp r \<le> row_timestamp c)
            \<and> fst (scan_with_nmap env s t) =
                \<lparr>r_url = t_url t, r_host = t_host t, r_port = t_port t, r_proto = t_proto t,
                 r_method = ''nmap-nse'', r_username = Some (row_username c),
                 r_password = Some (row_password c), r_success = row_success c,
                 r_response = Some (row_response c), r_cached = True\<rparr>))
   \<and> (no_cache env \<or> \<not> (\<exists>r \<in> set (db s). cache_match t r) \<longrightarrow>
      \<not> r_cached (fst (scan_with_nmap env s t))
      \<and> db (snd (scan_with_nmap env s t)) =
          db s @ [row_of (length (db s) + 1) (fst (scan_with_nmap env s t)) (nmap_now env)]
      \<and> results (snd (scan_with_nmap env s t)) = results s @ [fst (scan_with_nmap env s t)])"
proof (intro conjI impI)
  assume a: "\<not> no_cache env \<and> (\<exists>r \<in> set (db s). cache_match t r)"
  then obtain c where c: "cache_lookup s t = Some c"
    using cache_lookup_None [of s t] by (cases "cache_lookup s t") auto
  with a show "snd (scan_with_nmap env s t) = s"
    by (simp add: scan_with_nmap_def)
  from a c cache_lookup_Some [OF c]
  show "\<exists>c \<in> set (db s). cache_match t c
            \<and> (\<forall>r \<in> set (db s). cache_match t r \<longrightarrow> row_timestamp r \<le> row_timestamp c)
            \<and> fst (scan_with_nmap env s t) =
                \<lparr>r_url = t_url t, r_host = t_host t, r_port = t_port t, r_proto = t_proto t,
                 r_method = ''nmap-nse'', r_username = Some (row_username c),
                 r_password = Some (row_password c), r_success = row_success c,
                 r_response = Some (row_response c), r_cached = True\<rparr>"
    by (intro bexI [of _ c]) (simp_all add: scan_with_nmap_def)
next
  assume a: "no_cache env \<or> \<not> (\<exists>r \<in> set (db s). cache_match t r)"
  then have miss: "(if no_cache env then None else cache_lookup s t) = None"
    using cache_lookup_None [of s t] by auto
  show "\<not> r_cached (fst (scan_with_nmap env s t))"
    by (simp add: scan_with_nmap_def miss cached_nmap_try split: prod.splits)
       (metis cached_nmap_try fst_conv scan_result.select_convs(10))
  show "db (snd (scan_with_nmap env s t)) =
          db s @ [row_of (length (db s) + 1) (fst (scan_with_nmap env s t)) (nmap_now env)]"
    by (simp add: scan_with_nmap_def miss db_save_result split: prod.splits)
       (metis db_nmap_try snd_conv)
  show "results (snd (scan_with_nmap env s t)) = results s @ [fst (scan_with_nmap env s t)]"
    by (simp add: scan_with_nmap_def miss save_result_def split: prod.splits)
       (metis results_nmap_try snd_conv)
qed

text \<open>Witness for C5: with one matching row in the store and caching on, the state is
  returned as it was and the result is tagged; with caching off a second row is appended.\<close>

theorem scan_with_nmap_cache_hit_or_one_record_witness:
  "snd (scan_with_nmap
          \<lparr>no_cache = False, nmap_script = None, fingerprints = ''fp.lua'', script_dir = ''/opt'',
           write_error = None, run = (\<lambda>cmd. TimeoutExpired), nmap_now = ''2024-05-01T12:00:09''\<rparr>
          \<lparr>db = [\<lparr>row_id = 1, row_url = ''http://10.0.0.5'', row_host = ''10.0.0.5'', row_port = 80,
                   row_proto = ''http'', row_method = ''nmap-nse'', row_username = ''admin'',
                   row_password = ''admin'', row_success = True, row_response = ''credentials found'',
                   row_timestamp = ''2024-05-01T12:00:00''\<rparr>],
           results = [], files = Map.empty\<rparr>
          \<lparr>t_url = ''http://10.0.0.5'', t_proto = ''http'', t_host = ''10.0.0.5'', t_port = 80,
           t_path = ''/''\<rparr>)
     = \<lparr>db = [\<lparr>row_id = 1, row_url = ''http://10.0.0.5'', row_host = ''10.0.0.5'', row_port = 80,
                   row_proto = ''http'', row_method = ''nmap-nse'', row_username = ''admin'',
                   row_password = ''admin'', row_success = True, row_response = ''credentials found'',
                   row_timestamp = ''2024-05-01T12:00:00''\<rparr>],
           results = [], files = Map.empty\<rparr>
   \<and> r_cached (fst (scan_with_nmap
          \<lparr>no_cache = False, nmap_script = None, fingerprints = ''fp.lua'', script_dir = ''/opt'',
           write_error = None, run = (\<lambda>cmd. TimeoutExpired), nmap_now = ''2024-05-01T12:00:09''\<rparr>
          \<lparr>db = [\<lparr>row_id = 1, row_url = ''http://10.0.0.5'', row_host = ''10.0.0.5'', row_port = 80,
                   row_proto = ''http'', row_method = ''nmap-nse'', row_username = ''admin'',
                   row_password = ''admin'', row_success = True, row_response = ''credentials found'',
                   row_timestamp = ''2024-05-01T12:00:00''\<rparr>],
           results = [], files = Map.empty\<rparr>
          \<lparr>t_url = ''http://10.0.0.5'', t_proto = ''http'', t_host = ''10.0.0.5'', t_port = 80,
           t_path = ''/''\<rparr>))
   \<and> length (db (snd (scan_with_nmap
          \<lparr>no_cache = True, nmap_script = None, fingerprints = ''fp.lua'', script_dir = ''/opt'',
           write_error = None, run = (\<lambda>cmd. TimeoutExpired), nmap_now = ''2024-05-01T12:00:09''\<rparr>
          \<lparr>db = [\<lparr>row_id = 1, row_url = ''http://10.0.0.5'', row_host = ''10.0.0.5'', row_port = 80,
                   row_proto = ''http'', row_method = ''nmap-nse'', row_username = ''admin'',
                   row_password = ''admin'', row_success = True, row_response = ''credentials found'',
                   row_timestamp = ''2024-05-01T12:00:00''\<rparr>],
           results = [], files = Map.empty\<rparr>
          \<lparr>t_url = ''http://10.0.0.5'', t_proto = ''http'', t_host = ''10.0.0.5'', t_port = 80,
           t_path = ''/''\<rparr>))) = 2"
proof -
  let ?E = "\<lparr>no_cache = False, nmap_script = None, fingerprints = ''fp.lua'', script_dir = ''/opt'',
           write_error = None, run = (\<lambda>cmd. TimeoutExpired), nmap_now = ''2024-05-01T12:00:09''\<rparr>"
  let ?N = "\<lparr>no_cache = True, nmap_script = None, fingerprints = ''fp.lua'', script_dir = ''/opt'',
           write_error = None, run = (\<lambda>cmd. TimeoutExpired), nmap_now = ''2024-05-01T12:00:09''\<rparr>"
  let ?S = "\<lparr>db = [\<lparr>row_id = 1, row_url = ''http://10.0.0.5'', row_host = ''10.0.0.5'', row_port = 80,
                   row_proto = ''http'', row_method = ''nmap-nse'', row_username = ''admin'',
                   row_password = ''admin'', row_success = True, row_response = ''credentials found'',
                   row_timestamp = ''2024-05-01T12:00:00''\<rparr>],
           results = [], files = Map.empty\<rparr>"
  let ?T = "\<lparr>t_url = ''http://10.0.0.5'', t_proto = ''http'', t_host = ''10.0.0.5'', t_port = 80,
           t_path = ''/''\<rparr>"
  have hit: "\<not> no_cache ?E \<and> (\<exists>r \<in> set (db ?S). cache_match ?T r)"
    by (simp add: cache_match_def)
  have miss: "no_cache ?N \<or> \<not> (\<exists>r \<in> set (db ?S). cache_match ?T r)"
    by simp
  from scan_with_nmap_cache_hit_or_one_record [of ?E ?S ?T] hit
  have 1: "snd (scan_with_nmap ?E ?S ?T) = ?S" and 2: "r_cached (fst (scan_with_nmap ?E ?S ?T))"
    by auto
  from scan_with_nmap_cache_hit_or_one_record [of ?N ?S ?T] miss
  have 3: "length (db (snd (scan_with_nmap ?N ?S ?T))) = 2"
    by simp
  from 1 2 3 show ?thesis by blast
qed

text \<open>
  Claim C2 does not hold of the code; this is what the code does.  On an execution that
  misses the cache, reads the scanner script and writes the temporary script, the
  temporary script is deleted when \<open>subprocess.run\<close> returns; when \<open>subprocess.run\<close>
  raises \<open>TimeoutExpired\<close> or any other exception the temporary script, with the rewritten
  port rule, is still there when \<open>scan_with_nmap\<close> returns.
\<close>

theorem scan_with_nmap_temp_script_fate:
  "(no_cache env \<or> cache_lookup s t = None) \<and> nmap_script env = Some script
    \<and> files s script = Some content \<and> write_error env = None \<longrightarrow>
   (case run env (nmap_cmd env t) of
      Completed output \<Rightarrow> files (snd (scan_with_nmap env s t)) (temp_script_path env t) = None
    | _ \<Rightarrow> files (snd (scan_with_nmap env s t)) (temp_script_path env t)
            = Some (sub_portrule (portrule_for t) content))"
  by (auto simp: scan_with_nmap_def nmap_try_def Let_def save_result_def
      split: proc_outcome.splits)

text \<open>The failing input for C2: the scan of \<open>10.0.0.5:80\<close> times out, and
  \<open>temp_10.0.0.5_80.nse\<close> is left in the script directory.\<close>

theorem scan_with_nmap_temp_script_fate_witness:
  "files (snd (scan_with_nmap
          \<lparr>no_cache = True, nmap_script = Some ''/usr/share/nmap/scripts/http-default-accounts.nse'',
           fingerprints = ''fp.lua'', script_dir = ''/opt'',
           write_error = None, run = (\<lambda>cmd. TimeoutExpired), nmap_now = ''2024-05-01T12:00:09''\<rparr>
          \<lparr>db = [], results = [],
           files = [''/usr/share/nmap/scripts/http-default-accounts.nse'' \<mapsto> ''portrule = x'']\<rparr>
          \<lparr>t_url = ''http://10.0.0.5'', t_proto = ''http'', t_host = ''10.0.0.5'', t_port = 80,
           t_path = ''/''\<rparr>)) ''/opt/temp_10.0.0.5_80.nse''
     = Some ''portrule = shortport.port_or_service( {80}, {\"http\", \"https\"}, \"tcp\", \"open\")''"
proof -
  let ?E = "\<lparr>no_cache = True, nmap_script = Some ''/usr/share/nmap/scripts/http-default-accounts.nse'',
           fingerprints = ''fp.lua'', script_dir = ''/opt'',
           write_error = None, run = (\<lambda>cmd. TimeoutExpired), nmap_now = ''2024-05-01T12:00:09''\<rparr>"
  let ?S = "\<lparr>db = [], results = [],
           files = [''/usr/share/nmap/scripts/http-default-accounts.nse'' \<mapsto> ''portrule = x'']\<rparr>"
  let ?T = "\<lparr>t_url = ''http://10.0.0.5'', t_proto = ''http'', t_host = ''10.0.0.5'', t_port = 80,
           t_path = ''/''\<rparr>"
  have pre: "(no_cache ?E \<or> cache_lookup ?S ?T = None)
      \<and> nmap_script ?E = Some ''/usr/share/nmap/scripts/http-default-accounts.nse''
      \<and> files ?S ''/usr/share/nmap/scripts/http-default-accounts.nse'' = Some ''portrule = x''
      \<and> write_error ?E = None"
    by simp
  have path: "temp_script_path ?E ?T = ''/opt/temp_10.0.0.5_80.nse''"
    by (simp add: temp_script_path_def str_int_def str_nat.simps char_of_eq_iff)
  have rule: "sub_portrule (portrule_for ?T) ''portrule = x''
     = ''portrule = shortport.port_or_service( {80}, {\"http\", \"https\"}, \"tcp\", \"open\")''"
    by (simp add: sub_portrule_def portrule_for_def startswith_def str_int_def str_nat.simps
        char_of_eq_iff)
  from scan_with_nmap_temp_script_fate
         [of ?E ?S ?T "''/usr/share/nmap/scripts/http-default-accounts.nse''" "''portrule = x''"] pre
  have "files (snd (scan_with_nmap ?E ?S ?T)) (temp_script_path ?E ?T)
          = Some (sub_portrule (portrule_for ?T) ''portrule = x'')"
    by simp
  then show ?thesis unfolding path rule .
qed

section \<open>Properties of the credential probe engine\<close>

lemma startswith_iff: "startswith s p \<longleftrightarrow> (\<exists>post. s = p @ post)"
  unfolding startswith_def
  by (metis append_eq_conv_conj append_take_drop_id)

lemma contains_iff: "contains s sub \<longleftrightarrow> (\<exists>pre post. s = pre @ sub @ post)"
proof (induction s)
  case Nil
  then show ?case by simp
next
  case (Cons c cs)
  show ?case
  proof
    assume "contains (c # cs) sub"
    then consider "startswith (c # cs) sub" | "contains cs sub" by auto
    then show "\<exists>pre post. c # cs = pre @ sub @ post"
    proof cases
      case 1
      then obtain post where "c # cs = sub @ post" by (auto simp: startswith_iff)
      then have "c # cs = [] @ sub @ post" by simp
      then show ?thesis by blast
    next
      case 2
      with Cons.IH obtain pre post where "cs = pre @ sub @ post" by blast
      then have "c # cs = (c # pre) @ sub @ post" by simp
      then show ?thesis by blast
    qed
  next
    assume "\<exists>pre post. c # cs = pre @ sub @ post"
    then obtain pre post where e: "c # cs = pre @ sub @ post" by blast
    show "contains (c # cs) sub"
    proof (cases pre)
      case Nil
      with e have "startswith (c # cs) sub" by (auto simp: startswith_iff)
      then show ?thesis by simp
    next
      case (Cons x pre')
      with e have "cs = pre' @ sub @ post" by simp
      with Cons.IH have "contains cs sub" by blast
      then show ?thesis by simp
    qed
  qed
qed

text \<open>
  Claim C4.  The rule the code applies to a response, \<open>is_success\<close>, is the rule of the
  specification: status 200 and one of the markers \<open>logout\<close>, \<open>dashboard\<close>, \<open>welcome\<close> in
  the lowercased body.  An attempt of the probe loop ends with \<open>success\<close> set exactly when
  the transport returned a response that the rule accepts; a response with another
  status, a 200 response without a marker, and a transport error all leave it unset.
\<close>

theorem is_success_matches_spec:
  "is_success status body = spec_success status body
   \<and> r_success (try_cred env t i c)
       = (case transport env i (build_request env t i c) of
            Response status_code body \<Rightarrow> spec_success status_code body
          | TransportError msg \<Rightarrow> False)"
proof
  show eq: "is_success status body = spec_success status body" for status body
    by (auto simp: is_success_def spec_success_def contains_iff)
  show "r_success (try_cred env t i c)
       = (case transport env i (build_request env t i c) of
            Response status_code body \<Rightarrow> spec_success status_code body
          | TransportError msg \<Rightarrow> False)"
    by (simp add: try_cred_def Let_def eq [symmetric] split: http_outcome.splits)
qed

lemma length_DEFAULT_CREDS: "length DEFAULT_CREDS = 10"
  by (simp add: DEFAULT_CREDS_def)


lemma success_attempt_end:
  "r_success (attempt_end env t i c) = r_success (try_cred env t i c)"
  by (simp add: attempt_end_def Let_def split: option.splits)

lemma attempt_end_failed:
  "\<not> r_success (try_cred env t i c) \<Longrightarrow> attempt_end env t i c = try_cred env t i c"
  by (simp add: attempt_end_def Let_def)

lemma attempt_end_stored:
  "save_error env i = None \<Longrightarrow> attempt_end env t i c = try_cred env t i c"
  by (simp add: attempt_end_def Let_def)

text \<open>The loop in one statement: \<open>n\<close> requests were issued, the j-th for the j-th
  credential; the returned results are the successes among the \<open>n\<close> attempts; no attempt
  before the last was a success whose row was stored; and either the last one was, or the
  whole list was tried and the store is as it was.\<close>

lemma probe_loop_shape:
  "\<exists>n \<le> length cs.
      p_requests (probe_loop env t i cs st)
        = p_requests st @ map (\<lambda>j. build_request env t (i + j) (cs ! j)) [0..<n]
    \<and> p_attempts (probe_loop env t i cs st)
        = p_attempts st @ map (\<lambda>j. attempt_end env t (i + j) (cs ! j)) [0..<n]
    \<and> p_results (probe_loop env t i cs st)
        = p_results st
          @ filter r_success (map (\<lambda>j. attempt_end env t (i + j) (cs ! j)) [0..<n])
    \<and> (\<forall>j. Suc j < n \<longrightarrow>
           \<not> (r_success (try_cred env t (i + j) (cs ! j)) \<and> save_error env (i + j) = None))
    \<and> (if 0 < n \<and> r_success (try_cred env t (i + (n - 1)) (cs ! (n - 1)))
            \<and> save_error env (i + (n - 1)) = None
        then p_checker (probe_loop env t i cs st)
               = save_result (p_checker st) (try_cred env t (i + (n - 1)) (cs ! (n - 1)))
                   (custom_now env)
        else n = length cs \<and> p_checker (probe_loop env t i cs st) = p_checker st)"
proof (induction cs arbitrary: i st)
  case Nil
  then show ?case by simp
next
  case (Cons c cs)
  show ?case
  proof (cases "r_success (try_cred env t i c) \<and> save_error env i = None")
    case True
    then show ?thesis
      by (intro exI [of _ 1]) (simp add: Let_def attempt_end_stored)
  next
    case False
    let ?st1 = "st\<lparr>p_requests := p_requests st @ [build_request env t i c],
                     p_attempts := p_attempts st @ [attempt_end env t i c],
                     p_results := p_results st @ filter r_success [attempt_end env t i c]\<rparr>"
    have loop: "probe_loop env t i (c # cs) st = probe_loop env t (Suc i) cs ?st1"
    proof (cases "r_success (try_cred env t i c)")
      case True
      with False obtain msg where "save_error env i = Some msg" by auto
      with True show ?thesis by (simp add: Let_def success_attempt_end)
    next
      case False
      then show ?thesis by (simp add: Let_def success_attempt_end)
    qed
    from Cons.IH [of "Suc i" ?st1] obtain n where n: "n \<le> length cs"
      "p_requests (probe_loop env t (Suc i) cs ?st1)
        = p_requests ?st1 @ map (\<lambda>j. build_request env t (Suc i + j) (cs ! j)) [0..<n]"
      "p_attempts (probe_loop env t (Suc i) cs ?st1)
        = p_attempts ?st1 @ map (\<lambda>j. attempt_end env t (Suc i + j) (cs ! j)) [0..<n]"
      "p_results (probe_loop env t (Suc i) cs ?st1)
        = p_results ?st1
          @ filter r_success (map (\<lambda>j. attempt_end env t (Suc i + j) (cs ! j)) [0..<n])"
      "\<forall>j. Suc j < n \<longrightarrow>
           \<not> (r_success (try_cred env t (Suc i + j) (cs ! j))
              \<and> save_error env (Suc i + j) = None)"
      "if 0 < n \<and> r_success (try_cred env t (Suc i + (n - 1)) (cs ! (n - 1)))
            \<and> save_error env (Suc i + (n - 1)) = None
        then p_checker (probe_loop env t (Suc i) cs ?st1)
               = save_result (p_checker ?st1)
                   (try_cred env t (Suc i + (n - 1)) (cs ! (n - 1))) (custom_now env)
        else n = length cs \<and> p_checker (probe_loop env t (Suc i) cs ?st1) = p_checker ?st1"
      by blast
    have shift: "map f [0..<Suc n] = f 0 # map (\<lambda>j. f (Suc j)) [0..<n]" for f :: "nat \<Rightarrow> 'b"
      by (simp add: map_upt_Suc del: upt_Suc)
    show ?thesis
    proof (intro exI [of _ "Suc n"] conjI)
      show "Suc n \<le> length (c # cs)" using n(1) by simp
      show "p_requests (probe_loop env t i (c # cs) st)
        = p_requests st @ map (\<lambda>j. build_request env t (i + j) ((c # cs) ! j)) [0..<Suc n]"
        unfolding loop n(2) shift by simp
      show "p_attempts (probe_loop env t i (c # cs) st)
        = p_attempts st @ map (\<lambda>j. attempt_end env t (i + j) ((c # cs) ! j)) [0..<Suc n]"
        unfolding loop n(3) shift by simp
      show "p_results (probe_loop env t i (c # cs) st)
        = p_results st
          @ filter r_success (map (\<lambda>j. attempt_end env t (i + j) ((c # cs) ! j)) [0..<Suc n])"
        unfolding loop n(4) shift by simp
      show "\<forall>j. Suc j < Suc n \<longrightarrow>
           \<not> (r_success (try_cred env t (i + j) ((c # cs) ! j)) \<and> save_error env (i + j) = None)"
      proof (intro allI impI)
        fix j assume j: "Suc j < Suc n"
        show "\<not> (r_success (try_cred env t (i + j) ((c # cs) ! j))
                 \<and> save_error env (i + j) = None)"
        proof (cases j)
          case 0
          with False show ?thesis by simp
        next
          case (Suc j')
          with j n(5) show ?thesis by simp
        qed
      qed
      show "if 0 < Suc n \<and> r_success (try_cred env t (i + (Suc n - 1)) ((c # cs) ! (Suc n - 1)))
              \<and> save_error env (i + (Suc n - 1)) = None
        then p_checker (probe_loop env t i (c # cs) st)
               = save_result (p_checker st)
                   (try_cred env t (i + (Suc n - 1)) ((c # cs) ! (Suc n - 1))) (custom_now env)
        else Suc n = length (c # cs)
             \<and> p_checker (probe_loop env t i (c # cs) st) = p_checker st"
      proof (cases n)
        case 0
        with n(6) have "cs = []" by simp
        with False show ?thesis unfolding loop by (auto simp: 0)
      next
        case (Suc m)
        with n(6) show ?thesis unfolding loop by (auto split: if_splits)
      qed
    qed
  qed
qed

lemma scan_with_custom_shape:
  assumes "httpx_available env"
  shows "\<exists>n \<le> length DEFAULT_CREDS.
      p_requests (scan_with_custom env s t)
        = map (\<lambda>j. build_request env t j (DEFAULT_CREDS ! j)) [0..<n]
    \<and> p_attempts (scan_with_custom env s t)
        = map (\<lambda>j. attempt_end env t j (DEFAULT_CREDS ! j)) [0..<n]
    \<and> p_results (scan_with_custom env s t)
        = filter r_success (map (\<lambda>j. attempt_end env t j (DEFAULT_CREDS ! j)) [0..<n])
    \<and> (\<forall>j. Suc j < n \<longrightarrow>
           \<not> (r_success (try_cred env t j (DEFAULT_CREDS ! j)) \<and> save_error env j = None))
    \<and> (if 0 < n \<and> r_success (try_cred env t (n - 1) (DEFAULT_CREDS ! (n - 1)))
            \<and> save_error env (n - 1) = None
        then p_checker (scan_with_custom env s t)
               = save_result s (try_cred env t (n - 1) (DEFAULT_CREDS ! (n - 1)))
                   (custom_now env)
        else n = length DEFAULT_CREDS \<and> p_checker (scan_with_custom env s t) = s)"
proof -
  let ?st = "\<lparr>p_checker = s, p_results = [], p_requests = [], p_attempts = []\<rparr>"
  have eq: "scan_with_custom env s t = probe_loop env t 0 DEFAULT_CREDS ?st"
    using assms by (simp add: scan_with_custom_def Let_def)
  from probe_loop_shape [of DEFAULT_CREDS env t 0 ?st] obtain n where
    "n \<le> length DEFAULT_CREDS"
    "p_requests (probe_loop env t 0 DEFAULT_CREDS ?st)
        = p_requests ?st @ map (\<lambda>j. build_request env t (0 + j) (DEFAULT_CREDS ! j)) [0..<n]"
    "p_attempts (probe_loop env t 0 DEFAULT_CREDS ?st)
        = p_attempts ?st @ map (\<lambda>j. attempt_end env t (0 + j) (DEFAULT_CREDS ! j)) [0..<n]"
    "p_results (probe_loop env t 0 DEFAULT_CREDS ?st)
        = p_results ?st
          @ filter r_success (map (\<lambda>j. attempt_end env t (0 + j) (DEFAULT_CREDS ! j)) [0..<n])"
    "\<forall>j. Suc j < n \<longrightarrow>
        \<not> (r_success (try_cred env t (0 + j) (DEFAULT_CREDS ! j)) \<and> save_error env (0 + j) = None)"
    "if 0 < n \<and> r_success (try_cred env t (0 + (n - 1)) (DEFAULT_CREDS ! (n - 1)))
          \<and> save_error env (0 + (n - 1)) = None
        then p_checker (probe_loop env t 0 DEFAULT_CREDS ?st)
               = save_result (p_checker ?st)
                   (try_cred env t (0 + (n - 1)) (DEFAULT_CREDS ! (n - 1))) (custom_now env)
        else n = length DEFAULT_CREDS
             \<and> p_checker (probe_loop env t 0 DEFAULT_CREDS ?st) = p_checker ?st"
    by blast
  then show ?thesis
    unfolding eq by (intro exI [of _ n]) (auto split: if_splits)
qed

lemma scan_with_custom_unavailable:
  "\<not> httpx_available env \<Longrightarrow>
   scan_with_custom env s t = \<lparr>p_checker = s, p_results = [], p_requests = [], p_attempts = []\<rparr>"
  by (simp add: scan_with_custom_def)

lemmas probe_unfold =
  scan_with_custom_def try_cred_def build_request_def DEFAULT_CREDS_def is_success_def
  lower_def lower_char_def startswith_def str_int_def str_nat.simps char_of_eq_iff Let_def
  save_result_def row_of_def get_or_empty_def attempt_end_def

text \<open>
  Claim C3 does not hold of the code; this is what the code does on the failing input.
  The server accepts the first credential (\<open>admin\<close>, \<open>admin\<close>) and no other, and the database
  is locked, so \<open>_save_result\<close> raises.  The call is inside the \<open>try\<close> statement of the loop:
  the handler of line 335 catches the exception, \<open>break\<close> is not reached, and the loop tries
  the nine later credentials too.  Ten requests are issued, no row is stored, and the
  returned result carries the error text as its response.
\<close>

theorem scan_with_custom_swallows_store_failure:
  "length (p_requests (scan_with_custom
      \<lparr>httpx_available = True, evasion = False,
       transport = (\<lambda>i r. if req_auth r = (''admin'', ''admin'')
                           then Response 200 ''Welcome'' else Response 401 ''denied''),
       ua_choice = (\<lambda>i. 0), save_error = (\<lambda>i. Some ''database is locked''),
       custom_now = ''2024-05-02T12:00:09''\<rparr>
      \<lparr>db = [], results = [], files = Map.empty\<rparr>
      \<lparr>t_url = ''http://10.0.0.5'', t_proto = ''http'', t_host = ''10.0.0.5'', t_port = 80,
       t_path = ''/''\<rparr>)) = 10
   \<and> db (p_checker (scan_with_custom
      \<lparr>httpx_available = True, evasion = False,
       transport = (\<lambda>i r. if req_auth r = (''admin'', ''admin'')
                           then Response 200 ''Welcome'' else Response 401 ''denied''),
       ua_choice = (\<lambda>i. 0), save_error = (\<lambda>i. Some ''database is locked''),
       custom_now = ''2024-05-02T12:00:09''\<rparr>
      \<lparr>db = [], results = [], files = Map.empty\<rparr>
      \<lparr>t_url = ''http://10.0.0.5'', t_proto = ''http'', t_host = ''10.0.0.5'', t_port = 80,
       t_path = ''/''\<rparr>)) = []
   \<and> p_results (scan_with_custom
      \<lparr>httpx_available = True, evasion = False,
       transport = (\<lambda>i r. if req_auth r = (''admin'', ''admin'')
                           then Response 200 ''Welcome'' else Response 401 ''denied''),
       ua_choice = (\<lambda>i. 0), save_error = (\<lambda>i. Some ''database is locked''),
       custom_now = ''2024-05-02T12:00:09''\<rparr>
      \<lparr>db = [], results = [], files = Map.empty\<rparr>
      \<lparr>t_url = ''http://10.0.0.5'', t_proto = ''http'', t_host = ''10.0.0.5'', t_port = 80,
       t_path = ''/''\<rparr>)
     = [\<lparr>r_url = ''http://10.0.0.5'', r_host = ''10.0.0.5'', r_port = 80, r_proto = ''http'',
         r_method = ''custom-basic'', r_username = Some ''admin'', r_password = Some ''admin'',
         r_success = True, r_response = Some ''Error: database is locked'', r_cached = False\<rparr>]"
  by (simp add: probe_unfold)

text \<open>
  Claim C7.  Suppose no credential before the k-th succeeded and the request for the k-th
  credential raises a transport error with text \<open>msg\<close>.  Then the \<open>result\<close> dictionary of
  that attempt holds \<open>Error: msg\<close> as its response and is not a success; the loop goes on:
  when the list has a next credential, the request for it is issued; when it has none,
  the run ends normally with no result and the store as it was.  (\<open>scan_with_custom\<close> is
  a total function here: no transport error leaves it other than by its return.)
\<close>

theorem scan_with_custom_transport_error_continues:
  "httpx_available env \<and> k < length DEFAULT_CREDS
   \<and> transport env k (build_request env t k (DEFAULT_CREDS ! k)) = TransportError msg
   \<and> (\<forall>j < k. \<not> r_success (try_cred env t j (DEFAULT_CREDS ! j)))
   \<longrightarrow> k < length (p_attempts (scan_with_custom env s t))
       \<and> p_attempts (scan_with_custom env s t) ! k
           = \<lparr>r_url = t_url t, r_host = t_host t, r_port = t_port t, r_proto = t_proto t,
              r_method = ''custom-basic'', r_username = Some (username (DEFAULT_CREDS ! k)),
              r_password = Some (password (DEFAULT_CREDS ! k)), r_success = False,
              r_response = Some (''Error: '' @ msg), r_cached = False\<rparr>
       \<and> (Suc k < length DEFAULT_CREDS
            \<longrightarrow> Suc k < length (p_requests (scan_with_custom env s t))
                \<and> p_requests (scan_with_custom env s t) ! Suc k
                    = build_request env t (Suc k) (DEFAULT_CREDS ! Suc k))
       \<and> (Suc k = length DEFAULT_CREDS
            \<longrightarrow> p_results (scan_with_custom env s t) = []
                \<and> p_checker (scan_with_custom env s t) = s)"
proof (intro impI)
  assume a: "httpx_available env \<and> k < length DEFAULT_CREDS
   \<and> transport env k (build_request env t k (DEFAULT_CREDS ! k)) = TransportError msg
   \<and> (\<forall>j < k. \<not> r_success (try_cred env t j (DEFAULT_CREDS ! j)))"
  then have tk: "try_cred env t k (DEFAULT_CREDS ! k)
           = \<lparr>r_url = t_url t, r_host = t_host t, r_port = t_port t, r_proto = t_proto t,
              r_method = ''custom-basic'', r_username = Some (username (DEFAULT_CREDS ! k)),
              r_password = Some (password (DEFAULT_CREDS ! k)), r_success = False,
              r_response = Some (''Error: '' @ msg), r_cached = False\<rparr>"
    by (simp add: try_cred_def Let_def)
  then have nk: "\<not> r_success (try_cred env t k (DEFAULT_CREDS ! k))" by simp
  with a have none: "\<forall>j \<le> k. \<not> r_success (try_cred env t j (DEFAULT_CREDS ! j))"
    by (auto simp: le_less)
  from a have av: "httpx_available env" by simp
  from scan_with_custom_shape [OF av, of s t] obtain n where n: "n \<le> length DEFAULT_CREDS"
    "p_requests (scan_with_custom env s t)
        = map (\<lambda>j. build_request env t j (DEFAULT_CREDS ! j)) [0..<n]"
    "p_attempts (scan_with_custom env s t)
        = map (\<lambda>j. attempt_end env t j (DEFAULT_CREDS ! j)) [0..<n]"
    "p_results (scan_with_custom env s t)
        = filter r_success (map (\<lambda>j. attempt_end env t j (DEFAULT_CREDS ! j)) [0..<n])"
    "\<forall>j. Suc j < n \<longrightarrow>
           \<not> (r_success (try_cred env t j (DEFAULT_CREDS ! j)) \<and> save_error env j = None)"
    "if 0 < n \<and> r_success (try_cred env t (n - 1) (DEFAULT_CREDS ! (n - 1)))
            \<and> save_error env (n - 1) = None
        then p_checker (scan_with_custom env s t)
               = save_result s (try_cred env t (n - 1) (DEFAULT_CREDS ! (n - 1)))
                   (custom_now env)
        else n = length DEFAULT_CREDS \<and> p_checker (scan_with_custom env s t) = s"
    by blast
  have early: "n \<le> Suc k \<Longrightarrow> n = length DEFAULT_CREDS
             \<and> p_results (scan_with_custom env s t) = []
             \<and> p_checker (scan_with_custom env s t) = s"
  proof -
    assume le: "n \<le> Suc k"
    then have "\<not> (0 < n \<and> r_success (try_cred env t (n - 1) (DEFAULT_CREDS ! (n - 1)))
                   \<and> save_error env (n - 1) = None)"
      using none by (cases n) auto
    with n(6) have "n = length DEFAULT_CREDS \<and> p_checker (scan_with_custom env s t) = s"
      by presburger
    moreover from le none
    have "filter r_success (map (\<lambda>j. attempt_end env t j (DEFAULT_CREDS ! j)) [0..<n]) = []"
      by (simp add: filter_empty_conv success_attempt_end)
    ultimately show ?thesis by (simp add: n(4))
  qed
  have kn: "k < n"
  proof (rule ccontr)
    assume "\<not> k < n"
    then have "n \<le> Suc k" by simp
    from early [OF this] a \<open>\<not> k < n\<close> show False by simp
  qed
  show "k < length (p_attempts (scan_with_custom env s t))
       \<and> p_attempts (scan_with_custom env s t) ! k
           = \<lparr>r_url = t_url t, r_host = t_host t, r_port = t_port t, r_proto = t_proto t,
              r_method = ''custom-basic'', r_username = Some (username (DEFAULT_CREDS ! k)),
              r_password = Some (password (DEFAULT_CREDS ! k)), r_success = False,
              r_response = Some (''Error: '' @ msg), r_cached = False\<rparr>
       \<and> (Suc k < length DEFAULT_CREDS
            \<longrightarrow> Suc k < length (p_requests (scan_with_custom env s t))
                \<and> p_requests (scan_with_custom env s t) ! Suc k
                    = build_request env t (Suc k) (DEFAULT_CREDS ! Suc k))
       \<and> (Suc k = length DEFAULT_CREDS
            \<longrightarrow> p_results (scan_with_custom env s t) = []
                \<and> p_checker (scan_with_custom env s t) = s)"
  proof (intro conjI impI)
    show "k < length (p_attempts (scan_with_custom env s t))" using kn by (simp add: n(3))
    show "p_attempts (scan_with_custom env s t) ! k
           = \<lparr>r_url = t_url t, r_host = t_host t, r_port = t_port t, r_proto = t_proto t,
              r_method = ''custom-basic'', r_username = Some (username (DEFAULT_CREDS ! k)),
              r_password = Some (password (DEFAULT_CREDS ! k)), r_success = False,
              r_response = Some (''Error: '' @ msg), r_cached = False\<rparr>"
      using kn tk nk by (simp add: n(3) attempt_end_failed)
  next
    assume next_cred: "Suc k < length DEFAULT_CREDS"
    have skn: "Suc k < n"
    proof (rule ccontr)
      assume "\<not> Suc k < n"
      then have "n \<le> Suc k" by simp
      from early [OF this] next_cred \<open>\<not> Suc k < n\<close> show False by simp
    qed
    then show "Suc k < length (p_requests (scan_with_custom env s t))" by (simp add: n(2))
    from skn show "p_requests (scan_with_custom env s t) ! Suc k
                    = build_request env t (Suc k) (DEFAULT_CREDS ! Suc k)"
      by (simp add: n(2) del: upt_Suc)
  next
    assume last: "Suc k = length DEFAULT_CREDS"
    with n(1) have "n \<le> Suc k" by simp
    from early [OF this] show "p_results (scan_with_custom env s t) = []"
      and "p_checker (scan_with_custom env s t) = s" by simp_all
  qed
qed

text \<open>Witness for C7: the second request raises \<open>connection refused\<close>; the attempt's
  dictionary holds the error text and the third request, for (\<open>root\<close>, \<open>root\<close>), is issued.\<close>

theorem scan_with_custom_transport_error_continues_witness:
  "p_attempts (scan_with_custom
      \<lparr>httpx_available = True, evasion = False,
       transport = (\<lambda>i r. if i = 1 then TransportError ''connection refused''
                           else Response 401 ''denied''),
       ua_choice = (\<lambda>i. 0), save_error = (\<lambda>i. None), custom_now = ''2024-05-01T12:00:09''\<rparr>
      \<lparr>db = [], results = [], files = Map.empty\<rparr>
      \<lparr>t_url = ''http://10.0.0.5'', t_proto = ''http'', t_host = ''10.0.0.5'', t_port = 80,
       t_path = ''/''\<rparr>) ! 1
     = \<lparr>r_url = ''http://10.0.0.5'', r_host = ''10.0.0.5'', r_port = 80, r_proto = ''http'',
        r_method = ''custom-basic'', r_username = Some ''admin'', r_password = Some ''password'',
        r_success = False, r_response = Some ''Error: connection refused'', r_cached = False\<rparr>
   \<and> 2 < length (p_requests (scan_with_custom
      \<lparr>httpx_available = True, evasion = False,
       transport = (\<lambda>i r. if i = 1 then TransportError ''connection refused''
                           else Response 401 ''denied''),
       ua_choice = (\<lambda>i. 0), save_error = (\<lambda>i. None), custom_now = ''2024-05-01T12:00:09''\<rparr>
      \<lparr>db = [], results = [], files = Map.empty\<rparr>
      \<lparr>t_url = ''http://10.0.0.5'', t_proto = ''http'', t_host = ''10.0.0.5'', t_port = 80,
       t_path = ''/''\<rparr>))
   \<and> req_auth (p_requests (scan_with_custom
      \<lparr>httpx_available = True, evasion = False,
       transport = (\<lambda>i r. if i = 1 then TransportError ''connection refused''
                           else Response 401 ''denied''),
       ua_choice = (\<lambda>i. 0), save_error = (\<lambda>i. None), custom_now = ''2024-05-01T12:00:09''\<rparr>
      \<lparr>db = [], results = [], files = Map.empty\<rparr>
      \<lparr>t_url = ''http://10.0.0.5'', t_proto = ''http'', t_host = ''10.0.0.5'', t_port = 80,
       t_path = ''/''\<rparr>) ! 2) = (''root'', ''root'')"
proof -
  let ?E = "\<lparr>httpx_available = True, evasion = False,
       transport = (\<lambda>i r. if i = 1 then TransportError ''connection refused''
                           else Response 401 ''denied''),
       ua_choice = (\<lambda>i. 0), save_error = (\<lambda>i. None), custom_now = ''2024-05-01T12:00:09''\<rparr>"
  let ?S = "\<lparr>db = [], results = [], files = Map.empty\<rparr>"
  let ?T = "\<lparr>t_url = ''http://10.0.0.5'', t_proto = ''http'', t_host = ''10.0.0.5'', t_port = 80,
       t_path = ''/''\<rparr>"
  have l0: "\<not> r_success (try_cred ?E ?T 0 (DEFAULT_CREDS ! 0))"
    by (simp add: probe_unfold)
  have pre: "httpx_available ?E \<and> 1 < length DEFAULT_CREDS
     \<and> transport ?E 1 (build_request ?E ?T 1 (DEFAULT_CREDS ! 1)) = TransportError ''connection refused''
     \<and> (\<forall>j < 1. \<not> r_success (try_cred ?E ?T j (DEFAULT_CREDS ! j)))"
    using l0 by (simp add: length_DEFAULT_CREDS)
  have more: "Suc 1 < length DEFAULT_CREDS" by (simp add: length_DEFAULT_CREDS)
  from scan_with_custom_transport_error_continues [of ?E 1 ?T "''connection refused''" ?S] pre more
  have "p_attempts (scan_with_custom ?E ?S ?T) ! 1
           = \<lparr>r_url = t_url ?T, r_host = t_host ?T, r_port = t_port ?T, r_proto = t_proto ?T,
              r_method = ''custom-basic'', r_username = Some (username (DEFAULT_CREDS ! 1)),
              r_password = Some (password (DEFAULT_CREDS ! 1)), r_success = False,
              r_response = Some (''Error: '' @ ''connection refused''), r_cached = False\<rparr>
        \<and> Suc 1 < length (p_requests (scan_with_custom ?E ?S ?T))
        \<and> p_requests (scan_with_custom ?E ?S ?T) ! Suc 1
            = build_request ?E ?T (Suc 1) (DEFAULT_CREDS ! Suc 1)"
    by blast
  then show ?thesis
    by (simp add: DEFAULT_CREDS_def build_request_def numeral_2_eq_2)
qed

lemma method_try_cred: "r_method (try_cred env t i c) = ''custom-basic''"
  by (simp add: try_cred_def Let_def split: http_outcome.splits)

lemma db_scan_with_custom:
  "db (p_checker (scan_with_custom env s t)) = db s
   \<or> (\<exists>k < length DEFAULT_CREDS. r_success (try_cred env t k (DEFAULT_CREDS ! k))
        \<and> db (p_checker (scan_with_custom env s t))
            = db s @ [row_of (length (db s) + 1) (try_cred env t k (DEFAULT_CREDS ! k))
                        (custom_now env)])"
proof (cases "httpx_available env")
  case False
  then show ?thesis by (simp add: scan_with_custom_unavailable)
next
  case True
  from scan_with_custom_shape [OF True, of s t] obtain n where n: "n \<le> length DEFAULT_CREDS"
    "p_requests (scan_with_custom env s t)
        = map (\<lambda>j. build_request env t j (DEFAULT_CREDS ! j)) [0..<n]"
    "p_attempts (scan_with_custom env s t)
        = map (\<lambda>j. attempt_end env t j (DEFAULT_CREDS ! j)) [0..<n]"
    "p_results (scan_with_custom env s t)
        = filter r_success (map (\<lambda>j. attempt_end env t j (DEFAULT_CREDS ! j)) [0..<n])"
    "\<forall>j. Suc j < n \<longrightarrow>
           \<not> (r_success (try_cred env t j (DEFAULT_CREDS ! j)) \<and> save_error env j = None)"
    "if 0 < n \<and> r_success (try_cred env t (n - 1) (DEFAULT_CREDS ! (n - 1)))
            \<and> save_error env (n - 1) = None
        then p_checker (scan_with_custom env s t)
               = save_result s (try_cred env t (n - 1) (DEFAULT_CREDS ! (n - 1)))
                   (custom_now env)
        else n = length DEFAULT_CREDS \<and> p_checker (scan_with_custom env s t) = s"
    by blast
  show ?thesis
  proof (cases "0 < n \<and> r_success (try_cred env t (n - 1) (DEFAULT_CREDS ! (n - 1)))
                 \<and> save_error env (n - 1) = None")
    case True
    with n(1) have "n - 1 < length DEFAULT_CREDS" by arith
    moreover from True
    have "r_success (try_cred env t (n - 1) (DEFAULT_CREDS ! (n - 1)))" by simp
    moreover from True n(6)
    have "db (p_checker (scan_with_custom env s t))
            = db s @ [row_of (length (db s) + 1) (try_cred env t (n - 1) (DEFAULT_CREDS ! (n - 1)))
                        (custom_now env)]"
      by (simp add: save_result_def)
    ultimately show ?thesis by blast
  next
    case False
    with n(6) show ?thesis by presburger
  qed
qed

lemma db_scan_with_nmap:
  "db (snd (scan_with_nmap nenv s t)) = db s
   \<or> (\<exists>r. db (snd (scan_with_nmap nenv s t)) = db s @ [r] \<and> row_method r = ''nmap-nse'')"
proof (cases "if no_cache nenv then None else cache_lookup s t")
  case (Some c)
  then have "snd (scan_with_nmap nenv s t) = s" by (simp add: scan_with_nmap_def)
  then show ?thesis by simp
next
  case None
  let ?r0 = "\<lparr>r_url = t_url t, r_host = t_host t, r_port = t_port t,
                    r_proto = t_proto t, r_method = ''nmap-nse'', r_username = None,
                    r_password = None, r_success = False, r_response = None,
                    r_cached = False\<rparr>"
  obtain r1 s1 where tr: "nmap_try nenv s t ?r0 = (r1, s1)" by (cases "nmap_try nenv s t ?r0")
  from db_nmap_try [of nenv s t ?r0] method_nmap_try [of nenv s t ?r0] tr
  have "db s1 = db s" and "r_method r1 = ''nmap-nse''" by simp_all
  moreover from None tr have "snd (scan_with_nmap nenv s t) = save_result s1 r1 (nmap_now nenv)"
    by (simp add: scan_with_nmap_def)
  ultimately have "db (snd (scan_with_nmap nenv s t))
                    = db s @ [row_of (length (db s) + 1) r1 (nmap_now nenv)]"
    and "row_method (row_of (length (db s) + 1) r1 (nmap_now nenv)) = ''nmap-nse''"
    by (simp_all add: db_save_result row_of_def)
  then show ?thesis by blast
qed

text \<open>
  Claim C10.  A run of \<open>scan_with_custom\<close> appends to the store either nothing or one row,
  and that row has \<open>success\<close> set and the method \<open>custom-basic\<close>: an attempt that failed or
  raised is never persisted.  Hence the property that every \<open>custom-basic\<close> row of the store
  has \<open>success\<close> set holds of the empty table, is kept by every run of \<open>scan_with_custom\<close>,
  and is kept by every run of \<open>scan_with_nmap\<close> (the only other writer), so it holds after
  any sequence of scans.
\<close>

theorem scan_with_custom_persists_only_successes:
  "(\<exists>new. db (p_checker (scan_with_custom env s t)) = db s @ new \<and> length new \<le> 1
        \<and> (\<forall>r \<in> set new. row_success r \<and> row_method r = ''custom-basic''))
   \<and> ((\<forall>r \<in> set (db s). row_method r = ''custom-basic'' \<longrightarrow> row_success r)
        \<longrightarrow> (\<forall>r \<in> set (db (p_checker (scan_with_custom env s t))).
               row_method r = ''custom-basic'' \<longrightarrow> row_success r))
   \<and> ((\<forall>r \<in> set (db s). row_method r = ''custom-basic'' \<longrightarrow> row_success r)
        \<longrightarrow> (\<forall>r \<in> set (db (snd (scan_with_nmap nenv s t))).
               row_method r = ''custom-basic'' \<longrightarrow> row_success r))
   \<and> (\<forall>r \<in> set (db \<lparr>db = [], results = [], files = fs\<rparr>).
         row_method r = ''custom-basic'' \<longrightarrow> row_success r)"
proof (intro conjI)
  show new: "\<exists>new. db (p_checker (scan_with_custom env s t)) = db s @ new \<and> length new \<le> 1
        \<and> (\<forall>r \<in> set new. row_success r \<and> row_method r = ''custom-basic'')"
    using db_scan_with_custom [of env s t]
  proof
    assume "db (p_checker (scan_with_custom env s t)) = db s"
    then show ?thesis by (intro exI [of _ "[]"]) simp
  next
    assume "\<exists>k < length DEFAULT_CREDS. r_success (try_cred env t k (DEFAULT_CREDS ! k))
        \<and> db (p_checker (scan_with_custom env s t))
            = db s @ [row_of (length (db s) + 1) (try_cred env t k (DEFAULT_CREDS ! k))
                        (custom_now env)]"
    then obtain k where k: "r_success (try_cred env t k (DEFAULT_CREDS ! k))"
      "db (p_checker (scan_with_custom env s t))
            = db s @ [row_of (length (db s) + 1) (try_cred env t k (DEFAULT_CREDS ! k))
                        (custom_now env)]"
      by blast
    then show ?thesis
      by (intro exI [of _ "[row_of (length (db s) + 1) (try_cred env t k (DEFAULT_CREDS ! k))
                        (custom_now env)]"])
         (simp add: row_of_def method_try_cred)
  qed
  from new show "(\<forall>r \<in> set (db s). row_method r = ''custom-basic'' \<longrightarrow> row_success r)
        \<longrightarrow> (\<forall>r \<in> set (db (p_checker (scan_with_custom env s t))).
               row_method r = ''custom-basic'' \<longrightarrow> row_success r)"
    by auto
  have "db (snd (scan_with_nmap nenv s t)) = db s
        \<or> (\<exists>r. db (snd (scan_with_nmap nenv s t)) = db s @ [r] \<and> row_method r = ''nmap-nse'')"
    by (rule db_scan_with_nmap)
  then show "(\<forall>r \<in> set (db s). row_method r = ''custom-basic'' \<longrightarrow> row_success r)
        \<longrightarrow> (\<forall>r \<in> set (db (snd (scan_with_nmap nenv s t))).
               row_method r = ''custom-basic'' \<longrightarrow> row_success r)"
    by auto
  show "\<forall>r \<in> set (db \<lparr>db = [], results = [], files = fs\<rparr>).
         row_method r = ''custom-basic'' \<longrightarrow> row_success r"
    by simp
qed

text \<open>Witness for C10: the first request raises, the second is refused, the third
  succeeds; the store, empty before, holds the one row of the success.\<close>

theorem scan_with_custom_persists_only_successes_witness:
  "db (p_checker (scan_with_custom
      \<lparr>httpx_available = True, evasion = False,
       transport = (\<lambda>i r. if i = 0 then TransportError ''connection refused''
                           else if req_auth r = (''root'', ''root'')
                           then Response 200 ''Welcome Dashboard'' else Response 401 ''denied''),
       ua_choice = (\<lambda>i. 0), save_error = (\<lambda>i. None), custom_now = ''2024-05-01T12:00:09''\<rparr>
      \<lparr>db = [], results = [], files = Map.empty\<rparr>
      \<lparr>t_url = ''http://10.0.0.5'', t_proto = ''http'', t_host = ''10.0.0.5'', t_port = 80,
       t_path = ''/''\<rparr>))
     = [\<lparr>row_id = 1, row_url = ''http://10.0.0.5'', row_host = ''10.0.0.5'', row_port = 80,
         row_proto = ''http'', row_method = ''custom-basic'', row_username = ''root'',
         row_password = ''root'', row_success = True,
         row_response = ''HTTP 200 - Authenticated'', row_timestamp = ''2024-05-01T12:00:09''\<rparr>]
   \<and> list_all (\<lambda>r. row_method r = ''custom-basic'' \<longrightarrow> row_success r)
        (db (p_checker (scan_with_custom
      \<lparr>httpx_available = True, evasion = False,
       transport = (\<lambda>i r. if i = 0 then TransportError ''connection refused''
                           else if req_auth r = (''root'', ''root'')
                           then Response 200 ''Welcome Dashboard'' else Response 401 ''denied''),
       ua_choice = (\<lambda>i. 0), save_error = (\<lambda>i. None), custom_now = ''2024-05-01T12:00:09''\<rparr>
      \<lparr>db = [], results = [], files = Map.empty\<rparr>
      \<lparr>t_url = ''http://10.0.0.5'', t_proto = ''http'', t_host = ''10.0.0.5'', t_port = 80,
       t_path = ''/''\<rparr>)))"
proof -
  let ?E = "\<lparr>httpx_available = True, evasion = False,
       transport = (\<lambda>i r. if i = 0 then TransportError ''connection refused''
                           else if req_auth r = (''root'', ''root'')
                           then Response 200 ''Welcome Dashboard'' else Response 401 ''denied''),
       ua_choice = (\<lambda>i. 0), save_error = (\<lambda>i. None), custom_now = ''2024-05-01T12:00:09''\<rparr>"
  let ?S = "\<lparr>db = [], results = [], files = Map.empty\<rparr>"
  let ?T = "\<lparr>t_url = ''http://10.0.0.5'', t_proto = ''http'', t_host = ''10.0.0.5'', t_port = 80,
       t_path = ''/''\<rparr>"
  have run: "db (p_checker (scan_with_custom ?E ?S ?T))
     = [\<lparr>row_id = 1, row_url = ''http://10.0.0.5'', row_host = ''10.0.0.5'', row_port = 80,
         row_proto = ''http'', row_method = ''custom-basic'', row_username = ''root'',
         row_password = ''root'', row_success = True,
         row_response = ''HTTP 200 - Authenticated'', row_timestamp = ''2024-05-01T12:00:09''\<rparr>]"
    by (simp add: probe_unfold)
  have inv: "\<forall>r \<in> set (db ?S). row_method r = ''custom-basic'' \<longrightarrow> row_success r"
    by simp
  from scan_with_custom_persists_only_successes [of ?E ?S ?T] inv
  have "\<forall>r \<in> set (db (p_checker (scan_with_custom ?E ?S ?T))).
               row_method r = ''custom-basic'' \<longrightarrow> row_success r"
    by blast
  then have "list_all (\<lambda>r. row_method r = ''custom-basic'' \<longrightarrow> row_success r)
               (db (p_checker (scan_with_custom ?E ?S ?T)))"
    by (simp add: list_all_iff)
  with run show ?thesis by blast
qed

section \<open>Further properties of the scanners\<close>

text \<open>
  A run of \<open>scan_with_custom\<close> issues at most as many requests as the credential list has
  entries, and its j-th request is the one for the j-th entry, so no entry gets more than
  one.  When the k-th credential is the first one classified as successful and
  \<open>_save_result\<close> does not fail for it, the run issues exactly k + 1 requests (none for a
  later credential), returns that one result, and appends exactly one row, made from it,
  to the store.
\<close>

theorem scan_with_custom_stops_at_first_stored_success:
  "length (p_requests (scan_with_custom env s t)) \<le> length DEFAULT_CREDS
   \<and> (\<forall>j < length (p_requests (scan_with_custom env s t)).
         p_requests (scan_with_custom env s t) ! j = build_request env t j (DEFAULT_CREDS ! j))
   \<and> (httpx_available env \<and> k < length DEFAULT_CREDS
       \<and> r_success (try_cred env t k (DEFAULT_CREDS ! k)) \<and> save_error env k = None
       \<and> (\<forall>j < k. \<not> r_success (try_cred env t j (DEFAULT_CREDS ! j)))
       \<longrightarrow> length (p_requests (scan_with_custom env s t)) = Suc k
           \<and> p_results (scan_with_custom env s t) = [try_cred env t k (DEFAULT_CREDS ! k)]
           \<and> db (p_checker (scan_with_custom env s t))
               = db s @ [row_of (length (db s) + 1) (try_cred env t k (DEFAULT_CREDS ! k))
                           (custom_now env)])"
proof (cases "httpx_available env")
  case False
  then show ?thesis by (simp add: scan_with_custom_unavailable)
next
  case True
  from scan_with_custom_shape [OF True, of s t] obtain n where n: "n \<le> length DEFAULT_CREDS"
    "p_requests (scan_with_custom env s t)
        = map (\<lambda>j. build_request env t j (DEFAULT_CREDS ! j)) [0..<n]"
    "p_attempts (scan_with_custom env s t)
        = map (\<lambda>j. attempt_end env t j (DEFAULT_CREDS ! j)) [0..<n]"
    "p_results (scan_with_custom env s t)
        = filter r_success (map (\<lambda>j. attempt_end env t j (DEFAULT_CREDS ! j)) [0..<n])"
    "\<forall>j. Suc j < n \<longrightarrow>
           \<not> (r_success (try_cred env t j (DEFAULT_CREDS ! j)) \<and> save_error env j = None)"
    "if 0 < n \<and> r_success (try_cred env t (n - 1) (DEFAULT_CREDS ! (n - 1)))
            \<and> save_error env (n - 1) = None
        then p_checker (scan_with_custom env s t)
               = save_result s (try_cred env t (n - 1) (DEFAULT_CREDS ! (n - 1)))
                   (custom_now env)
        else n = length DEFAULT_CREDS \<and> p_checker (scan_with_custom env s t) = s"
    by blast
  have len: "length (p_requests (scan_with_custom env s t)) = n" by (simp add: n(2))
  show ?thesis
  proof (intro conjI impI allI)
    show "length (p_requests (scan_with_custom env s t)) \<le> length DEFAULT_CREDS"
      using len n(1) by simp
  next
    fix j assume "j < length (p_requests (scan_with_custom env s t))"
    then show "p_requests (scan_with_custom env s t) ! j = build_request env t j (DEFAULT_CREDS ! j)"
      by (simp add: n(2))
  next
    assume a: "httpx_available env \<and> k < length DEFAULT_CREDS
       \<and> r_success (try_cred env t k (DEFAULT_CREDS ! k)) \<and> save_error env k = None
       \<and> (\<forall>j < k. \<not> r_success (try_cred env t j (DEFAULT_CREDS ! j)))"
    have "\<not> Suc k < n" using n(5) a by blast
    moreover have "\<not> n \<le> k"
    proof
      assume le: "n \<le> k"
      then have "\<not> (0 < n \<and> r_success (try_cred env t (n - 1) (DEFAULT_CREDS ! (n - 1)))
                     \<and> save_error env (n - 1) = None)"
        using a by (cases n) auto
      with n(6) have "n = length DEFAULT_CREDS" by presburger
      with le a show False by simp
    qed
    ultimately have nk: "n = Suc k" by simp
    with n(6) a have c: "p_checker (scan_with_custom env s t)
               = save_result s (try_cred env t k (DEFAULT_CREDS ! k)) (custom_now env)"
      by simp
    have "filter r_success (map (\<lambda>j. attempt_end env t j (DEFAULT_CREDS ! j)) [0..<k]) = []"
      using a by (simp add: filter_empty_conv success_attempt_end)
    with a have r: "p_results (scan_with_custom env s t) = [try_cred env t k (DEFAULT_CREDS ! k)]"
      unfolding n(4) nk by (simp add: success_attempt_end attempt_end_stored)
    show "length (p_requests (scan_with_custom env s t)) = Suc k" using len nk by simp
    show "p_results (scan_with_custom env s t) = [try_cred env t k (DEFAULT_CREDS ! k)]" by (rule r)
    show "db (p_checker (scan_with_custom env s t))
               = db s @ [row_of (length (db s) + 1) (try_cred env t k (DEFAULT_CREDS ! k))
                           (custom_now env)]"
      by (simp add: c save_result_def)
  qed
qed

text \<open>The third credential (\<open>root\<close>, \<open>root\<close>) is the first the server accepts and its row is
  stored: three requests are issued, one result is returned and one row is stored.\<close>

theorem scan_with_custom_stops_at_first_stored_success_witness:
  "length (p_requests (scan_with_custom
      \<lparr>httpx_available = True, evasion = False,
       transport = (\<lambda>i r. if req_auth r = (''root'', ''root'')
                           then Response 200 ''Welcome Dashboard'' else Response 401 ''denied''),
       ua_choice = (\<lambda>i. 0), save_error = (\<lambda>i. None), custom_now = ''2024-05-01T12:00:09''\<rparr>
      \<lparr>db = [], results = [], files = Map.empty\<rparr>
      \<lparr>t_url = ''http://10.0.0.5'', t_proto = ''http'', t_host = ''10.0.0.5'', t_port = 80,
       t_path = ''/''\<rparr>)) = 3
   \<and> p_results (scan_with_custom
      \<lparr>httpx_available = True, evasion = False,
       transport = (\<lambda>i r. if req_auth r = (''root'', ''root'')
                           then Response 200 ''Welcome Dashboard'' else Response 401 ''denied''),
       ua_choice = (\<lambda>i. 0), save_error = (\<lambda>i. None), custom_now = ''2024-05-01T12:00:09''\<rparr>
      \<lparr>db = [], results = [], files = Map.empty\<rparr>
      \<lparr>t_url = ''http://10.0.0.5'', t_proto = ''http'', t_host = ''10.0.0.5'', t_port = 80,
       t_path = ''/''\<rparr>)
     = [\<lparr>r_url = ''http://10.0.0.5'', r_host = ''10.0.0.5'', r_port = 80, r_proto = ''http'',
         r_method = ''custom-basic'', r_username = Some ''root'', r_password = Some ''root'',
         r_success = True, r_response = Some ''HTTP 200 - Authenticated'', r_cached = False\<rparr>]
   \<and> length (db (p_checker (scan_with_custom
      \<lparr>httpx_available = True, evasion = False,
       transport = (\<lambda>i r. if req_auth r = (''root'', ''root'')
                           then Response 200 ''Welcome Dashboard'' else Response 401 ''denied''),
       ua_choice = (\<lambda>i. 0), save_error = (\<lambda>i. None), custom_now = ''2024-05-01T12:00:09''\<rparr>
      \<lparr>db = [], results = [], files = Map.empty\<rparr>
      \<lparr>t_url = ''http://10.0.0.5'', t_proto = ''http'', t_host = ''10.0.0.5'', t_port = 80,
       t_path = ''/''\<rparr>))) = 1"
proof -
  let ?E = "\<lparr>httpx_available = True, evasion = False,
       transport = (\<lambda>i r. if req_auth r = (''root'', ''root'')
                           then Response 200 ''Welcome Dashboard'' else Response 401 ''denied''),
       ua_choice = (\<lambda>i. 0), save_error = (\<lambda>i. None), custom_now = ''2024-05-01T12:00:09''\<rparr>"
  let ?S = "\<lparr>db = [], results = [], files = Map.empty\<rparr>"
  let ?T = "\<lparr>t_url = ''http://10.0.0.5'', t_proto = ''http'', t_host = ''10.0.0.5'', t_port = 80,
       t_path = ''/''\<rparr>"
  have win: "try_cred ?E ?T 2 (DEFAULT_CREDS ! 2)
     = \<lparr>r_url = ''http://10.0.0.5'', r_host = ''10.0.0.5'', r_port = 80, r_proto = ''http'',
         r_method = ''custom-basic'', r_username = Some ''root'', r_password = Some ''root'',
         r_success = True, r_response = Some ''HTTP 200 - Authenticated'', r_cached = False\<rparr>"
    by (simp add: probe_unfold)
  have l0: "\<not> r_success (try_cred ?E ?T 0 (DEFAULT_CREDS ! 0))"
    by (simp add: probe_unfold)
  have l1: "\<not> r_success (try_cred ?E ?T 1 (DEFAULT_CREDS ! 1))"
    by (simp add: probe_unfold)
  have before: "\<forall>j < 2. \<not> r_success (try_cred ?E ?T j (DEFAULT_CREDS ! j))"
  proof (intro allI impI)
    fix j :: nat assume "j < 2"
    then have "j = 0 \<or> j = 1" by arith
    with l0 l1 show "\<not> r_success (try_cred ?E ?T j (DEFAULT_CREDS ! j))" by auto
  qed
  have pre: "httpx_available ?E \<and> 2 < length DEFAULT_CREDS
       \<and> r_success (try_cred ?E ?T 2 (DEFAULT_CREDS ! 2)) \<and> save_error ?E 2 = None
       \<and> (\<forall>j < 2. \<not> r_success (try_cred ?E ?T j (DEFAULT_CREDS ! j)))"
    using before by (simp add: win length_DEFAULT_CREDS)
  from scan_with_custom_stops_at_first_stored_success [of ?E ?S ?T 2] pre
  have "length (p_requests (scan_with_custom ?E ?S ?T)) = Suc 2
        \<and> p_results (scan_with_custom ?E ?S ?T) = [try_cred ?E ?T 2 (DEFAULT_CREDS ! 2)]
        \<and> db (p_checker (scan_with_custom ?E ?S ?T))
            = db ?S @ [row_of (length (db ?S) + 1) (try_cred ?E ?T 2 (DEFAULT_CREDS ! 2))
                        (custom_now ?E)]"
    by blast
  then show ?thesis unfolding win by simp
qed

text \<open>
  When no credential is classified as successful, a run of
  \<open>scan_with_custom\<close> issues one request per entry of the credential list, returns no
  result and leaves the checker's state as it was.
\<close>

theorem scan_with_custom_all_fail:
  "httpx_available env
   \<and> (\<forall>j < length DEFAULT_CREDS. \<not> r_success (try_cred env t j (DEFAULT_CREDS ! j)))
   \<longrightarrow> length (p_requests (scan_with_custom env s t)) = length DEFAULT_CREDS
       \<and> p_results (scan_with_custom env s t) = []
       \<and> p_checker (scan_with_custom env s t) = s"
proof
  assume a: "httpx_available env
   \<and> (\<forall>j < length DEFAULT_CREDS. \<not> r_success (try_cred env t j (DEFAULT_CREDS ! j)))"
  then have av: "httpx_available env" by simp
  from scan_with_custom_shape [OF av, of s t] obtain n where n: "n \<le> length DEFAULT_CREDS"
    "p_requests (scan_with_custom env s t)
        = map (\<lambda>j. build_request env t j (DEFAULT_CREDS ! j)) [0..<n]"
    "p_attempts (scan_with_custom env s t)
        = map (\<lambda>j. attempt_end env t j (DEFAULT_CREDS ! j)) [0..<n]"
    "p_results (scan_with_custom env s t)
        = filter r_success (map (\<lambda>j. attempt_end env t j (DEFAULT_CREDS ! j)) [0..<n])"
    "\<forall>j. Suc j < n \<longrightarrow>
           \<not> (r_success (try_cred env t j (DEFAULT_CREDS ! j)) \<and> save_error env j = None)"
    "if 0 < n \<and> r_success (try_cred env t (n - 1) (DEFAULT_CREDS ! (n - 1)))
            \<and> save_error env (n - 1) = None
        then p_checker (scan_with_custom env s t)
               = save_result s (try_cred env t (n - 1) (DEFAULT_CREDS ! (n - 1)))
                   (custom_now env)
        else n = length DEFAULT_CREDS \<and> p_checker (scan_with_custom env s t) = s"
    by blast
  have "\<not> (0 < n \<and> r_success (try_cred env t (n - 1) (DEFAULT_CREDS ! (n - 1)))
             \<and> save_error env (n - 1) = None)"
    using a n(1) by (cases n) auto
  with n(6) have "n = length DEFAULT_CREDS \<and> p_checker (scan_with_custom env s t) = s"
    by presburger
  moreover from a n(1)
  have "filter r_success (map (\<lambda>j. attempt_end env t j (DEFAULT_CREDS ! j)) [0..<n]) = []"
    by (simp add: filter_empty_conv success_attempt_end)
  ultimately show "length (p_requests (scan_with_custom env s t)) = length DEFAULT_CREDS
       \<and> p_results (scan_with_custom env s t) = []
       \<and> p_checker (scan_with_custom env s t) = s"
    by (simp add: n(2) n(4))
qed

text \<open>A server that answers 401 to every request: ten requests, no result.\<close>

theorem scan_with_custom_all_fail_witness:
  "length (p_requests (scan_with_custom
      \<lparr>httpx_available = True, evasion = False,
       transport = (\<lambda>i r. Response 401 ''denied''),
       ua_choice = (\<lambda>i. 0), save_error = (\<lambda>i. None), custom_now = ''2024-05-02T12:00:09''\<rparr>
      \<lparr>db = [], results = [], files = Map.empty\<rparr>
      \<lparr>t_url = ''http://10.0.0.5'', t_proto = ''http'', t_host = ''10.0.0.5'', t_port = 80,
       t_path = ''/''\<rparr>)) = 10
   \<and> p_results (scan_with_custom
      \<lparr>httpx_available = True, evasion = False,
       transport = (\<lambda>i r. Response 401 ''denied''),
       ua_choice = (\<lambda>i. 0), save_error = (\<lambda>i. None), custom_now = ''2024-05-02T12:00:09''\<rparr>
      \<lparr>db = [], results = [], files = Map.empty\<rparr>
      \<lparr>t_url = ''http://10.0.0.5'', t_proto = ''http'', t_host = ''10.0.0.5'', t_port = 80,
       t_path = ''/''\<rparr>) = []"
proof -
  let ?E = "\<lparr>httpx_available = True, evasion = False,
       transport = (\<lambda>i r. Response 401 ''denied''),
       ua_choice = (\<lambda>i. 0), save_error = (\<lambda>i. None), custom_now = ''2024-05-02T12:00:09''\<rparr>"
  let ?S = "\<lparr>db = [], results = [], files = Map.empty\<rparr>"
  let ?T = "\<lparr>t_url = ''http://10.0.0.5'', t_proto = ''http'', t_host = ''10.0.0.5'', t_port = 80,
       t_path = ''/''\<rparr>"
  have "\<not> r_success (try_cred ?E ?T j c)" for j c
    by (simp add: try_cred_def is_success_def Let_def)
  then have pre: "httpx_available ?E
     \<and> (\<forall>j < length DEFAULT_CREDS. \<not> r_success (try_cred ?E ?T j (DEFAULT_CREDS ! j)))"
    by simp
  from scan_with_custom_all_fail [of ?E ?T ?S] pre
  have "length (p_requests (scan_with_custom ?E ?S ?T)) = length DEFAULT_CREDS
       \<and> p_results (scan_with_custom ?E ?S ?T) = []"
    by blast
  then show ?thesis by (simp add: length_DEFAULT_CREDS)
qed

text \<open>
  Scanner output that reports valid credentials but holds no
  \<open>user:password\<close> pair gives a successful result with no user name and no password, and
  the stored row has both as the empty text.
\<close>

theorem scan_with_nmap_success_without_pair:
  "fst (scan_with_nmap
          \<lparr>no_cache = True, nmap_script = Some ''/usr/share/nmap/scripts/http-default-accounts.nse'',
           fingerprints = ''fp.lua'', script_dir = ''/opt'', write_error = None,
           run = (\<lambda>cmd. Completed ''Valid credentials found''),
           nmap_now = ''2024-05-02T12:00:09''\<rparr>
          \<lparr>db = [], results = [],
           files = [''/usr/share/nmap/scripts/http-default-accounts.nse'' \<mapsto> ''portrule = x'']\<rparr>
          \<lparr>t_url = ''http://10.0.0.5'', t_proto = ''http'', t_host = ''10.0.0.5'', t_port = 80,
           t_path = ''/''\<rparr>)
     = \<lparr>r_url = ''http://10.0.0.5'', r_host = ''10.0.0.5'', r_port = 80, r_proto = ''http'',
        r_method = ''nmap-nse'', r_username = None, r_password = None, r_success = True,
        r_response = Some ''Valid credentials found'', r_cached = False\<rparr>
   \<and> map row_username (db (snd (scan_with_nmap
          \<lparr>no_cache = True, nmap_script = Some ''/usr/share/nmap/scripts/http-default-accounts.nse'',
           fingerprints = ''fp.lua'', script_dir = ''/opt'', write_error = None,
           run = (\<lambda>cmd. Completed ''Valid credentials found''),
           nmap_now = ''2024-05-02T12:00:09''\<rparr>
          \<lparr>db = [], results = [],
           files = [''/usr/share/nmap/scripts/http-default-accounts.nse'' \<mapsto> ''portrule = x'']\<rparr>
          \<lparr>t_url = ''http://10.0.0.5'', t_proto = ''http'', t_host = ''10.0.0.5'', t_port = 80,
           t_path = ''/''\<rparr>))) = ['''']"
  by (simp add: scan_with_nmap_def nmap_try_def Let_def save_result_def row_of_def
      get_or_empty_def lower_def lower_char_def startswith_def match_cred_at_def is_word_def
      char_of_eq_iff)



end
